theory Spec2Isabelle
  imports Complex_Main "HOL-Library.Sublist" "HOL-Library.Log_Nat"
begin

section \<open>PiPhi: front panel for the pianobar player\<close>

text \<open>
  A shallow embedding of \<^verbatim>\<open>PiPhi.py\<close>. Python strings are \<^typ>\<open>string\<close>
  (one \<^typ>\<open>char\<close> per code point below 256), Python integers are \<^typ>\<open>int\<close>, and the
  floating point volumes and time stamps are \<^typ>\<open>real\<close> numbers. Sums, differences,
  products and quotients of floats are kept exact, with one exception: where the script turns a
  volume into the integer level that it sends to the player, \<^verbatim>\<open>int((v - VOL_MIN) + 0.5)\<close>,
  both operations round to the nearest double as Python does, since that rounding decides
  how many commands are sent. The globals of the script form a record that every
  operation takes and returns; what the script writes to the display, to the player and
  to standard output is appended to logs in that record.
\<close>

subsection \<open>Python strings and lists\<close>

text \<open>\<^verbatim>\<open>s.find(sub)\<close>: the lowest index where \<^verbatim>\<open>sub\<close> starts, or -1.\<close>

fun find_from :: "int \<Rightarrow> string \<Rightarrow> string \<Rightarrow> int" where
  "find_from i sub [] = (if sub = [] then i else -1)"
| "find_from i sub (c # cs) = (if prefix sub (c # cs) then i else find_from (i + 1) sub cs)"

definition py_find :: "string \<Rightarrow> string \<Rightarrow> int" where
  "py_find s sub = find_from 0 sub s"

text \<open>Truth value of a Python integer used as a condition.\<close>

definition truthy :: "int \<Rightarrow> bool" where
  "truthy k = (k \<noteq> 0)"

text \<open>
  Slices \<^verbatim>\<open>s[i:j]\<close> and \<^verbatim>\<open>s[i:]\<close>: a negative bound counts from the end, and
  every bound is clipped to the sequence.
\<close>

definition slice_bound :: "nat \<Rightarrow> int \<Rightarrow> nat" where
  "slice_bound n k = (if k < 0 then nat (max (int n + k) 0) else min (nat k) n)"

definition py_slice :: "'a list \<Rightarrow> int \<Rightarrow> int \<Rightarrow> 'a list" where
  "py_slice s i j = drop (slice_bound (length s) i) (take (slice_bound (length s) j) s)"

definition py_slice_from :: "'a list \<Rightarrow> int \<Rightarrow> 'a list" where
  "py_slice_from s i = drop (slice_bound (length s) i) s"

text \<open>
  \<^verbatim>\<open>xs[i]\<close>: an index from the front, or a negative one from the back; \<open>None\<close> is
  the IndexError of an index outside the list.
\<close>

definition py_get :: "'a list \<Rightarrow> int \<Rightarrow> 'a option" where
  "py_get xs i =
     (if 0 \<le> i \<and> i < int (length xs) then Some (xs ! nat i)
      else if i < 0 \<and> - int (length xs) \<le> i then Some (xs ! nat (int (length xs) + i))
      else None)"

text \<open>\<^verbatim>\<open>s * k\<close>: \<^verbatim>\<open>k\<close> copies, none when \<^verbatim>\<open>k\<close> is not positive.\<close>

definition py_rep :: "string \<Rightarrow> int \<Rightarrow> string" where
  "py_rep s k = concat (replicate (nat k) s)"

text \<open>\<^verbatim>\<open>chr(k)\<close> for the small codes the script uses.\<close>

definition py_chr :: "int \<Rightarrow> char" where
  "py_chr k = char_of (nat k)"

text \<open>The characters \<^verbatim>\<open>str.strip()\<close> removes (those below 256).\<close>

definition is_space :: "char \<Rightarrow> bool" where
  "is_space c = (of_char c \<in> {9, 10, 11, 12, 13, 28, 29, 30, 31, 32, 133, 160 :: nat})"

definition py_strip :: "string \<Rightarrow> string" where
  "py_strip s = rev (dropWhile is_space (rev (dropWhile is_space s)))"

text \<open>
  \<^verbatim>\<open>bytes.splitlines()\<close>: lines end at \<^verbatim>\<open>\n\<close>, \<^verbatim>\<open>\r\<close> or \<^verbatim>\<open>\r\n\<close>; the
  terminators are dropped and there is no empty last line. The flag records that the
  previous character was a carriage return.
\<close>

fun splitlines_from :: "bool \<Rightarrow> string \<Rightarrow> string \<Rightarrow> string list" where
  "splitlines_from cr cur [] = (if cur = [] then [] else [rev cur])"
| "splitlines_from cr cur (c # cs) =
     (if c = CHR 0x0A \<and> cr then splitlines_from False cur cs
      else if c = CHR 0x0A \<or> c = CHR 0x0D then rev cur # splitlines_from (c = CHR 0x0D) [] cs
      else splitlines_from False (c # cur) cs)"

definition py_splitlines :: "string \<Rightarrow> string list" where
  "py_splitlines s = splitlines_from False [] s"

text \<open>\<^verbatim>\<open>int(x)\<close> of a float: truncation towards zero.\<close>

definition py_int :: "real \<Rightarrow> int" where
  "py_int r = (if 0 \<le> r then \<lfloor>r\<rfloor> else \<lceil>r\<rceil>)"

text \<open>
  The result of a float operation: the exact result rounded to the nearest number with
  a significand of 53 bits, a tie going to the even significand (binary64, away from
  overflow and subnormal numbers). \<open>exponent a\<close> is the power of two at or below a
  positive \<open>a\<close>.
\<close>

definition pow2 :: "int \<Rightarrow> real" where
  "pow2 e = (if 0 \<le> e then 2 ^ nat e else 1 / 2 ^ nat (- e))"

definition exponent :: "real \<Rightarrow> int" where
  "exponent a =
     (if 1 \<le> a then bitlen \<lfloor>a\<rfloor> - 1
      else (let k = bitlen \<lfloor>1 / a\<rfloor> - 1 in if a * pow2 k = 1 then - k else - k - 1))"

definition round_even :: "real \<Rightarrow> int" where
  "round_even y =
     (let f = \<lfloor>y\<rfloor>; r = y - of_int f
      in if r < 1 / 2 then f else if 1 / 2 < r then f + 1 else if even f then f else f + 1)"

definition to_double :: "real \<Rightarrow> real" where
  "to_double x =
     (if x = 0 then 0
      else (let u = pow2 (exponent \<bar>x\<bar> - 52) in of_int (round_even (x / u)) * u))"

subsection \<open>Reading the player's output\<close>

text \<open>
  \<^verbatim>\<open>pianobar.expect(patterns)\<close> on the output that arrives before the timeout: the
  leftmost place where one of the patterns matches (the first pattern of the list where
  several match there). It yields the index of the pattern, the text before the match
  (\<^verbatim>\<open>pianobar.before\<close>) and the text left in the buffer; \<open>None\<close> is the TIMEOUT (or
  EOF) exception, which leaves the buffer as it was. Every pattern of the script is a
  literal string (\<^verbatim>\<open>' \| '\<close> is the regular expression of space, bar, space).
\<close>

fun match_at :: "string list \<Rightarrow> string \<Rightarrow> nat option" where
  "match_at [] s = None"
| "match_at (p # ps) s = (if prefix p s then Some 0 else map_option Suc (match_at ps s))"

fun expect :: "string list \<Rightarrow> string \<Rightarrow> (nat \<times> string \<times> string) option" where
  "expect pats [] =
     (case match_at pats [] of Some i \<Rightarrow> Some (i, [], []) | None \<Rightarrow> None)"
| "expect pats (c # cs) =
     (case match_at pats (c # cs) of
        Some i \<Rightarrow> Some (i, [], drop (length (pats ! i)) (c # cs))
      | None \<Rightarrow> (case expect pats cs of
                   Some (i, b, r) \<Rightarrow> Some (i, c # b, r)
                 | None \<Rightarrow> None))"

subsection \<open>Station list\<close>

text \<open>
  The body of the loop of \<^verbatim>\<open>get_stations\<close> for one line \<^verbatim>\<open>b\<close>, on the lists built
  so far, and the loop over \<^verbatim>\<open>a[:-1]\<close>.
\<close>

definition station_guard :: "string \<Rightarrow> bool" where
  "station_guard b = (truthy (py_find b ''Radio'') \<or> truthy (py_find b ''QuickMix''))"

definition station_skip :: "string \<Rightarrow> bool" where
  "station_skip b = (py_find b ''playlist...'' \<ge> 0 \<or> py_find b ''Autostart'' \<ge> 0)"

definition station_entry :: "string \<Rightarrow> string list \<times> string list \<Rightarrow> string list \<times> string list" where
  "station_entry b acc =
     (let ident = py_strip (py_slice b 5 7);
          name = py_strip (py_slice_from b 13)
      in if name = ''QuickMix'' then (name # fst acc, ident # snd acc)
         else (fst acc @ [name], snd acc @ [ident]))"

definition station_line :: "string list \<times> string list \<Rightarrow> string \<Rightarrow> string list \<times> string list" where
  "station_line acc b =
     (if station_skip b then acc
      else if station_guard b then station_entry b acc
      else acc)"

definition parse_stations :: "string list \<Rightarrow> string list \<times> string list" where
  "parse_stations a = foldl station_line ([], []) (butlast a)"

subsection \<open>Constants and global state\<close>

definition VOL_MIN :: real where "VOL_MIN = -20"
definition VOL_MAX :: real where "VOL_MAX = 15"
definition VOL_DEFAULT :: real where "VOL_DEFAULT = 0"

text \<open>
  \<^verbatim>\<open>int((v - VOL_MIN) + 0.5)\<close>, the integer level of a volume (\<^verbatim>\<open>vol_cur_i\<close> and
  \<^verbatim>\<open>vol_new_i\<close> in the script), with the rounding of the difference and of the sum.
\<close>

definition vol_i :: "real \<Rightarrow> int" where
  "vol_i v = py_int (to_double (to_double (v - VOL_MIN) + 0.5))"

definition char_seven_bitmaps :: "int list list" where
  "char_seven_bitmaps =
     [[16, 24, 28, 30, 28, 24, 16, 0],
      [27, 27, 27, 27, 27, 27, 27, 0],
      [0, 20, 26, 29, 26, 20, 0, 0]]"

text \<open>The calls made on the display, in order.\<close>

datatype lcd_op =
    Lcd_home
  | Lcd_clear
  | Lcd_backlight real
  | Lcd_set_cursor int int
  | Lcd_message string
  | Lcd_create_char nat "int list"

text \<open>How the script ends other than by the player's death.\<close>

datatype stop = SystemExit | IndexError | TIMEOUT

text \<open>
  The globals of the script. \<open>cursorY\<close> and \<open>list_top\<close> are unbound in Python until the
  station menu is first entered, which assigns both before anything reads them; here they
  start at 0. \<open>buf\<close> is the player's output not yet consumed, \<open>sent\<close> what was written to
  the player, \<open>printed\<close> the lines written to standard output, and \<open>pickled\<close> the last
  content written to the state file.
\<close>

record state =
  vol_cur :: real
  vol_new :: real
  vol_speed :: real
  vol_set :: bool
  paused :: bool
  sta_sel :: bool
  vol_time :: real
  play_msg_time :: real
  sta_btn_time :: real
  x_title :: int
  x_info :: int
  x_station :: int
  x_title_wrap :: int
  x_info_wrap :: int
  song_title :: string
  song_info :: string
  station_num :: int
  station_new :: int
  station_list :: "string list"
  station_ids :: "string list"
  cursorY :: int
  list_top :: int
  buf :: string
  sent :: string
  lcd :: "lcd_op list"
  printed :: "string list"
  pickled :: "(real \<times> string) option"

definition emit :: "lcd_op list \<Rightarrow> state \<Rightarrow> state" where
  "emit ops st = st\<lparr>lcd := lcd st @ ops\<rparr>"

definition send :: "string \<Rightarrow> state \<Rightarrow> state" where
  "send s st = st\<lparr>sent := sent st @ s\<rparr>"

definition say :: "string \<Rightarrow> state \<Rightarrow> state" where
  "say s st = st\<lparr>printed := printed st @ [s]\<rparr>"

definition quoted :: "string \<Rightarrow> string" where
  "quoted s = [CHR 0x22] @ s @ [CHR 0x22]"

subsection \<open>Drawing\<close>

text \<open>
  \<^verbatim>\<open>marquee(s, x, y, x_wrap)\<close>: what is drawn on row \<^verbatim>\<open>y\<close> and the next position.
\<close>

definition marquee :: "string \<Rightarrow> int \<Rightarrow> int \<Rightarrow> int \<Rightarrow> lcd_op list \<times> int" where
  "marquee s x y x_wrap =
     (if x > 0
      then ([Lcd_set_cursor 0 y, Lcd_message (py_rep '' '' x @ py_slice s 0 (16 - x))], x - 1)
      else ([Lcd_set_cursor 0 y, Lcd_message (py_slice s (- x) (16 - x))],
            if x < x_wrap then 0 else x - 1))"

definition draw_playing :: "lcd_op list" where
  "draw_playing =
     [Lcd_create_char 7 (char_seven_bitmaps ! 0), Lcd_set_cursor 0 1,
      Lcd_message (CHR 0x07 # '' Playing       '')]"

definition draw_paused :: "lcd_op list" where
  "draw_paused =
     [Lcd_create_char 7 (char_seven_bitmaps ! 1), Lcd_set_cursor 0 1,
      Lcd_message (CHR 0x07 # '' Paused        '')]"

definition draw_next_track :: "lcd_op list" where
  "draw_next_track =
     [Lcd_create_char 7 (char_seven_bitmaps ! 2), Lcd_set_cursor 0 1,
      Lcd_message (CHR 0x07 # '' Next track... '')]"

text \<open>
  One row of the station menu: the 16 characters added to the message and, where the
  name of the selected station scrolls on, the new return value.
\<close>

definition pad15 :: "string \<Rightarrow> string" where
  "pad15 s = py_slice s 0 15 @
     (if int (length s) < 15 then py_rep '' '' (15 - int (length s)) else [])"

definition draw_row :: "real \<Rightarrow> real \<Rightarrow> int \<Rightarrow> bool \<Rightarrow> string \<Rightarrow> string \<times> int option" where
  "draw_row now btn_time xs selected s =
     (let sLen = int (length s) in
      if selected then
        (if sLen > 15 then
           (if now - btn_time < 0.5 then (CHR 0x07 # py_slice s 0 15, None)
            else (CHR 0x07 # py_slice (s @ ''   '' @ py_slice s 0 15) (- xs) (15 - xs),
                  if xs > - (sLen + 2) then Some (xs - 1) else None))
         else (CHR 0x07 # pad15 s, None))
      else (CHR 0x20 # pad15 s, None))"

text \<open>
  The loop of \<^verbatim>\<open>draw_stations\<close> over the rows on screen, on \<open>(msg, ret, line)\<close>; it
  breaks after row \<open>last\<close>.
\<close>

fun draw_rows :: "real \<Rightarrow> real \<Rightarrow> int \<Rightarrow> int \<Rightarrow> int \<Rightarrow> int \<Rightarrow> string list
    \<Rightarrow> string \<times> int \<times> int \<Rightarrow> string \<times> int" where
  "draw_rows now btn_time xs sel ltop lst [] (msg, ret, line) = (msg, ret)"
| "draw_rows now btn_time xs sel ltop lst (s # ss) (msg, ret, line) =
     (let row = draw_row now btn_time xs (ltop + line = sel) s;
          msg' = msg @ fst row;
          ret' = (case snd row of Some v \<Rightarrow> v | None \<Rightarrow> ret);
          line' = line + 1
      in if line' = lst then (msg', ret')
         else draw_rows now btn_time xs sel ltop lst ss (msg' @ [CHR 0x0A], ret', line'))"

text \<open>
  \<^verbatim>\<open>draw_stations(station_new, list_top, x_station, sta_btn_time)\<close> on the global
  station list, at clock reading \<open>now\<close>.
\<close>

definition draw_stations :: "string list \<Rightarrow> real \<Rightarrow> int \<Rightarrow> int \<Rightarrow> int \<Rightarrow> real
    \<Rightarrow> lcd_op list \<times> int" where
  "draw_stations stations now sel ltop xs btn_time =
     (let lst = (if length stations > 2 then 2 else int (length stations));
          r = draw_rows now btn_time xs sel ltop lst (py_slice stations ltop (ltop + 2)) ([], 0, 0)
      in ([Lcd_set_cursor 0 0, Lcd_message (fst r)], snd r))"

subsection \<open>Parsing the player's output in the main loop\<close>

definition pattern_list :: "string list" where
  "pattern_list = [''SONG: '', ''STATION: '', ''TIME: '']"

definition bar :: "string list" where
  "bar = ['' | '']"

definition crlf :: "string list" where
  "crlf = [[CHR 0x0D, CHR 0x0A]]"

text \<open>
  The three branches of the loop that processes pending output, entered with the marker
  already consumed. Each returns the state and whether the loop goes on: \<open>False\<close> is a
  TIMEOUT (or EOF) raised by an inner \<^verbatim>\<open>expect\<close>, which leaves the loop at once.
\<close>

definition song_branch :: "state \<Rightarrow> state \<times> bool" where
  "song_branch st =
     (let st1 = st\<lparr>song_title := [], song_info := [], x_title := 16, x_info := 16,
                    x_title_wrap := 0, x_info_wrap := 0\<rparr>
      in case expect bar (buf st1) of
           None \<Rightarrow> (st1, False)
         | Some (x, title, rest) \<Rightarrow>
             (let s = title @ ''    '';
                  n = int (length s);
                  st2 = (say (''Song: '' @ quoted title) st1)
                          \<lparr>buf := rest, x_title_wrap := - n + 2,
                           song_title := py_rep s (py_int (1 + 16 / real_of_int n)) @ py_slice s 0 16\<rparr>
              in case expect bar (buf st2) of
                   None \<Rightarrow> (st2, False)
                 | Some (x, artist, rest) \<Rightarrow>
                     (let st3 = (say (''Artist: '' @ quoted artist) st2)\<lparr>buf := rest\<rparr>
                      in case expect crlf (buf st3) of
                           None \<Rightarrow> (st3, False)
                         | Some (x, album, rest) \<Rightarrow>
                             (let s = artist @ '' < '' @ album @ '' > '';
                                  n = int (length s)
                              in ((say (''Album: '' @ quoted album) st3)
                                    \<lparr>buf := rest, x_info_wrap := - n + 2,
                                     song_info := py_rep s (py_int (2 + 16 / real_of_int n))
                                                  @ py_slice s 0 16\<rparr>,
                                  True)))))"

definition station_branch :: "state \<Rightarrow> state \<times> bool" where
  "station_branch st =
     (case expect bar (buf st) of
        None \<Rightarrow> (st, False)
      | Some (x, name, rest) \<Rightarrow> ((say (''Station: '' @ quoted name) st)\<lparr>buf := rest\<rparr>, True))"

text \<open>
  The time marker also dumps \<^verbatim>\<open>[vol_cur, station_list[station_num]]\<close> to the state
  file; an exception there (an index out of range) is swallowed and nothing is written.
\<close>

definition time_branch :: "state \<Rightarrow> state \<times> bool" where
  "time_branch st =
     (case expect [[CHR 0x0D]] (buf st) of
        None \<Rightarrow> (st, False)
      | Some (x, t, rest) \<Rightarrow>
          (let st1 = (say (''Time: '' @ t) st)\<lparr>buf := rest\<rparr>
           in (case py_get (station_list st1) (station_num st1) of
                 Some name \<Rightarrow> st1\<lparr>pickled := Some (vol_cur st1, name)\<rparr>
               | None \<Rightarrow> st1,
               True)))"

definition marker_branch :: "nat \<Rightarrow> state \<Rightarrow> state \<times> bool" where
  "marker_branch x st =
     (if x = 0 then song_branch st
      else if x = 1 then station_branch st
      else time_branch st)"

text \<open>The loop \<^verbatim>\<open>while True: try: ... except: break\<close> over the pending output.\<close>

function parse_output :: "state \<Rightarrow> state" where
  "parse_output st =
     (case expect pattern_list (buf st) of
        None \<Rightarrow> st
      | Some (x, bef, rest) \<Rightarrow>
          (let r = marker_branch x (st\<lparr>buf := rest\<rparr>)
           in if snd r then parse_output (fst r) else fst r))"
  by pat_completeness auto
termination
proof (relation "measure (\<lambda>st. length (buf st))")
  show "wf (measure (\<lambda>st. length (buf st)))"
    by simp
next
  fix st :: state and hit x rest' bef rest r
  assume hit: "expect pattern_list (buf st) = Some hit"
    and "(x, rest') = hit" and "(bef, rest) = rest'"
    and r: "r = marker_branch x (st\<lparr>buf := rest\<rparr>)" and "snd r"
  then have e: "expect pattern_list (buf st) = Some (x, bef, rest)"
    by simp
  have m: "match_at ps s = Some i \<Longrightarrow> i < length ps \<and> prefix (ps ! i) s" for ps s i
    by (induction ps arbitrary: i) (auto split: if_splits)
  have le: "expect ps b = Some (i, bf, rs) \<Longrightarrow> length rs \<le> length b" for ps b i bf rs
    by (induction b arbitrary: bf) (auto split: option.splits)
  have lt: "expect ps b = Some (i, bf, rs) \<Longrightarrow> \<forall>p \<in> set ps. p \<noteq> [] \<Longrightarrow> length rs < length b"
    for ps b i bf rs
  proof (induction b arbitrary: bf)
    case Nil
    then show ?case
      using m [of ps "[]"] by (auto split: option.splits)
  next
    case (Cons c cs)
    show ?case
    proof (cases "match_at ps (c # cs)")
      case None
      with Cons show ?thesis
        by (fastforce split: option.splits)
    next
      case (Some j)
      with m [of ps "c # cs" j] Cons.prems(2) have "0 < length (ps ! j)"
        by auto
      with Some Cons.prems(1) show ?thesis
        by auto
    qed
  qed
  have song: "length (buf (fst (song_branch s))) \<le> length (buf s)" for s
    unfolding song_branch_def Let_def say_def
    by (auto split: option.splits dest!: le)
  have station: "length (buf (fst (station_branch s))) \<le> length (buf s)" for s
    unfolding station_branch_def say_def
    by (auto split: option.splits dest!: le)
  have time: "length (buf (fst (time_branch s))) \<le> length (buf s)" for s
    unfolding time_branch_def Let_def say_def
    by (auto split: option.splits dest!: le)
  have "length (buf (fst r)) \<le> length rest"
    using song [of "st\<lparr>buf := rest\<rparr>"] station [of "st\<lparr>buf := rest\<rparr>"]
      time [of "st\<lparr>buf := rest\<rparr>"]
    by (simp add: r marker_branch_def)
  moreover have "length rest < length (buf st)"
    using lt [OF e] by (simp add: pattern_list_def)
  ultimately show "(fst r, st) \<in> measure (\<lambda>st. length (buf st))"
    by simp
qed

declare parse_output.simps [simp del]

subsection \<open>One pass of the main loop\<close>

text \<open>
  What one pass of the main loop reads from outside: the output of the player that has
  arrived, the five buttons as polled, whether a pressed select button stays down for
  \<^verbatim>\<open>HOLD_TIME\<close>, and the reading of the clock (one reading for the whole pass).
\<close>

record input =
  incoming :: string
  btn_up :: bool
  btn_down :: bool
  btn_left :: bool
  btn_right :: bool
  btn_sel :: bool
  sel_held :: bool
  now :: real

text \<open>
  Select: a long hold calls \<^verbatim>\<open>shutdown()\<close>, which with \<^verbatim>\<open>HALT_ON_EXIT = False\<close>
  clears the display and exits; a tap leaves the station menu or toggles pause.
\<close>

definition on_select :: "input \<Rightarrow> state \<Rightarrow> stop + state" where
  "on_select inp st =
     (if sel_held inp then Inl SystemExit
      else if sta_sel st then
        (let st1 = (send [CHR 0x0A] st)\<lparr>sta_sel := False\<rparr>
         in Inr (if paused st1 then emit draw_paused st1 else st1))
      else
        (let st1 = (send ''p'' (st\<lparr>vol_set := False, paused := \<not> paused st\<rparr>))
         in Inr (if paused st1 then emit draw_paused st1
                 else (emit draw_playing st1)\<lparr>play_msg_time := now inp\<rparr>)))"

definition on_right :: "state \<Rightarrow> state" where
  "on_right st =
     (let st1 = emit draw_next_track st;
          st2 = (if sta_sel st1 then (send [CHR 0x0A] st1)\<lparr>sta_sel := False\<rparr> else st1)
      in send ''n'' (st2\<lparr>paused := False, vol_set := False\<rparr>))"

text \<open>
  Left: enters the station menu, or leaves it with the highlighted station selected.
  \<^verbatim>\<open>station_ids[station_num]\<close> raises IndexError out of range.
\<close>

definition on_left :: "input \<Rightarrow> state \<Rightarrow> stop + state" where
  "on_left inp st =
     (let st1 = st\<lparr>sta_sel := \<not> sta_sel st\<rparr>
      in if sta_sel st1 then
           (let st2 = (emit [Lcd_create_char 7 (char_seven_bitmaps ! 0)] (send ''s'' st1))
                        \<lparr>vol_set := False, cursorY := 0, station_new := 0, list_top := 0,
                         x_station := 0, sta_btn_time := now inp\<rparr>
            in Inr (emit (fst (draw_stations (station_list st2) (now inp) (station_new st2)
                                 (list_top st2) 0 (sta_btn_time st2))) st2))
         else
           (let st2 = st1\<lparr>station_num := station_new st1\<rparr>
            in case py_get (station_ids st2) (station_num st2) of
                 None \<Rightarrow> Inl IndexError
               | Some ident \<Rightarrow>
                   Inr ((send (ident @ [CHR 0x0A])
                          (say (''Selecting station: '' @ quoted ident) st2))
                        \<lparr>paused := False\<rparr>)))"

text \<open>Up or down inside the station menu.\<close>

definition menu_move :: "input \<Rightarrow> state \<Rightarrow> state" where
  "menu_move inp st =
     (let st1 =
        (if btn_down inp then
           (if station_new st < int (length (station_list st)) - 1 then
              (let a = st\<lparr>station_new := station_new st + 1\<rparr>;
                   b = (if cursorY a < 1 then a\<lparr>cursorY := cursorY a + 1\<rparr>
                        else a\<lparr>list_top := list_top a + 1\<rparr>)
               in b\<lparr>x_station := 0\<rparr>)
            else st)
         else if station_new st > 0 then
           (let a = st\<lparr>station_new := station_new st - 1\<rparr>;
                b = (if cursorY a > 0 then a\<lparr>cursorY := cursorY a - 1\<rparr>
                     else a\<lparr>list_top := list_top a - 1\<rparr>)
            in b\<lparr>x_station := 0\<rparr>)
         else st);
          st2 = st1\<lparr>sta_btn_time := now inp\<rparr>;
          d = draw_stations (station_list st2) (now inp) (station_new st2) (list_top st2) 0
                (sta_btn_time st2)
      in (emit (fst d) st2)\<lparr>x_station := snd d\<rparr>)"

text \<open>Up or down outside the station menu: the volume.\<close>

definition volume_bar :: "real \<Rightarrow> string" where
  "volume_bar v =
     (let vol_cur_i = vol_i v;
          n = py_int (real_of_int vol_cur_i / 5)
      in [py_chr 6] @ '' Volume '' @ py_rep [py_chr 5] n @ [py_chr (vol_cur_i mod 5)]
         @ py_rep [py_chr 0] (6 - n))"

definition volume_press :: "input \<Rightarrow> state \<Rightarrow> state" where
  "volume_press inp st =
     (let st1 = (if \<not> vol_set st
                 then (emit [Lcd_set_cursor 0 1, Lcd_message (volume_bar (vol_cur st))] st)
                        \<lparr>vol_set := True, vol_speed := 1\<rparr>
                 else st);
          st2 = (if btn_up inp then
                   (let a = st1\<lparr>vol_new := vol_cur st1 + vol_speed st1\<rparr>
                    in if vol_new a > VOL_MAX then a\<lparr>vol_new := VOL_MAX\<rparr> else a)
                 else
                   (let a = st1\<lparr>vol_new := vol_cur st1 - vol_speed st1\<rparr>
                    in if vol_new a < VOL_MIN then a\<lparr>vol_new := VOL_MIN\<rparr> else a))
      in st2\<lparr>vol_time := now inp, vol_speed := vol_speed st2 * 1.15\<rparr>)"

definition on_updown :: "input \<Rightarrow> state \<Rightarrow> state" where
  "on_updown inp st = (if sta_sel st then menu_move inp st else volume_press inp st)"

text \<open>
  No button pressed. \<^verbatim>\<open>station_list[station_new]\<close> raises IndexError out of range.
\<close>

definition on_idle :: "input \<Rightarrow> state \<Rightarrow> stop + state" where
  "on_idle inp st =
     (if sta_sel st then
        (case py_get (station_list st) (station_new st) of
           None \<Rightarrow> Inl IndexError
         | Some name \<Rightarrow>
             (if length name > 15 then
                (let d = draw_stations (station_list st) (now inp) (station_new st)
                           (list_top st) (x_station st) (sta_btn_time st)
                 in Inr ((emit (fst d) st)\<lparr>x_station := snd d\<rparr>))
              else Inr st))
      else if vol_set st then
        (let st1 = st\<lparr>vol_speed := 1\<rparr>
         in if now inp - vol_time st1 \<ge> 4 then
              (let st2 = st1\<lparr>vol_set := False\<rparr>
               in Inr (if paused st2 then emit draw_paused st2 else st2))
            else Inr st1)
      else Inr st)"

definition buttons :: "input \<Rightarrow> state \<Rightarrow> stop + state" where
  "buttons inp st =
     (if btn_sel inp then on_select inp st
      else if btn_right inp then Inr (on_right st)
      else if btn_left inp then on_left inp st
      else if btn_up inp \<or> btn_down inp then Inr (on_updown inp st)
      else on_idle inp st)"

text \<open>
  The logic that runs on every pass outside the station menu: the title marquee, the
  volume change sent to the player as unit steps, and the lower display line.
\<close>

definition send_volume :: "int \<Rightarrow> int \<Rightarrow> state \<Rightarrow> state" where
  "send_volume vol_cur_i vol_new_i st =
     (if vol_cur_i \<noteq> vol_new_i then
        (let d = vol_new_i - vol_cur_i
         in send (if d > 0 then py_rep '')'' d else py_rep ''('' (- d)) st)
      else st)"

definition bar_change :: "int \<Rightarrow> int \<Rightarrow> lcd_op list" where
  "bar_change vol_cur_i vol_new_i =
     (if vol_new_i \<noteq> vol_cur_i then
        (if vol_new_i > vol_cur_i then
           (let x = py_int (real_of_int vol_cur_i / 5);
                n = py_int (real_of_int vol_new_i / 5) - x
            in [Lcd_set_cursor (x + 9) 1,
                Lcd_message (py_rep [py_chr 5] n @ [py_chr (vol_new_i mod 5)])])
         else
           (let x = py_int (real_of_int vol_new_i / 5);
                n = py_int (real_of_int vol_cur_i / 5) - x
            in [Lcd_set_cursor (x + 9) 1,
                Lcd_message ([py_chr (vol_new_i mod 5)] @ py_rep [py_chr 0] n)]))
      else [])"

definition always_on :: "input \<Rightarrow> state \<Rightarrow> state" where
  "always_on inp st =
     (if \<not> sta_sel st then
        (let m = marquee (song_title st) (x_title st) 0 (x_title_wrap st);
             st1 = (emit (fst m) st)\<lparr>x_title := snd m\<rparr>;
             vol_cur_i = vol_i (vol_cur st1);
             vol_new_i = vol_i (vol_new st1);
             st2 = send_volume vol_cur_i vol_new_i (st1\<lparr>vol_cur := vol_new st1\<rparr>)
         in if vol_set st2 then emit (bar_change vol_cur_i vol_new_i) st2
            else if \<not> paused st2 then
              (if now inp - play_msg_time st2 \<ge> 3 then
                 (let m = marquee (song_info st2) (x_info st2) 1 (x_info_wrap st2)
                  in (emit (fst m) st2)\<lparr>x_info := snd m\<rparr>)
               else st2)
            else st2)
      else st)"

text \<open>
  One pass of the main loop (the frame limiter only waits), and the passes made for a
  list of inputs while the player is alive.
\<close>

definition tick :: "input \<Rightarrow> state \<Rightarrow> stop + state" where
  "tick inp st =
     (case buttons inp (parse_output (st\<lparr>buf := buf st @ incoming inp\<rparr>)) of
        Inl e \<Rightarrow> Inl e
      | Inr st1 \<Rightarrow> Inr (always_on inp st1))"

fun run :: "input list \<Rightarrow> state \<Rightarrow> stop + state" where
  "run [] st = Inr st"
| "run (inp # inps) st = (case tick inp st of Inl e \<Rightarrow> Inl e | Inr st1 \<Rightarrow> run inps st1)"

subsection \<open>Start-up\<close>

text \<open>
  What the state file holds: nothing readable, a list with a volume only (the volume is
  taken and the read of the station name raises), or a volume and a station name.
\<close>

datatype stored = NoFile | VolOnly real | VolStation real string

definition globals :: state where
  "globals =
     \<lparr>vol_cur = VOL_MIN, vol_new = VOL_DEFAULT, vol_speed = 1, vol_set = False,
      paused = False, sta_sel = False, vol_time = 0, play_msg_time = 0, sta_btn_time = 0,
      x_title = 16, x_info = 16, x_station = 0, x_title_wrap = 0, x_info_wrap = 0,
      song_title = [], song_info = [], station_num = 0, station_new = 0,
      station_list = [[]], station_ids = [[]], cursorY = 0, list_top = 0,
      buf = [], sent = [], lcd = [], printed = [], pickled = None\<rparr>"

definition init_display :: "lcd_op list" where
  "init_display =
     [Lcd_home, Lcd_clear]
     @ map (\<lambda>i. Lcd_create_char i (replicate 8 (take_bit 5 (push_bit (5 - i) (255::int)))))
         [0, 1, 2, 3, 4, 5]
     @ [Lcd_create_char 6 [4, 14, 31, 0, 0, 31, 14, 4],
        Lcd_create_char 7 (char_seven_bitmaps ! 1)]"

definition load_pickle :: "stored \<Rightarrow> state \<Rightarrow> state \<times> string option" where
  "load_pickle f st =
     (case f of
        NoFile \<Rightarrow> (st, None)
      | VolOnly v \<Rightarrow> (st\<lparr>vol_new := v\<rparr>, None)
      | VolStation v name \<Rightarrow> (st\<lparr>vol_new := v\<rparr>, Some name))"

text \<open>\<^verbatim>\<open>xs.index(x)\<close>, with \<open>None\<close> where Python raises ValueError.\<close>

fun index_of :: "'a \<Rightarrow> 'a list \<Rightarrow> int option" where
  "index_of x [] = None"
| "index_of x (y # ys) = (if x = y then Some 0 else map_option (\<lambda>i. i + 1) (index_of x ys))"

text \<open>
  \<^verbatim>\<open>get_stations()\<close> on the buffered output of the player: the lists of names and
  ids, or the TIMEOUT of its \<^verbatim>\<open>expect\<close>.
\<close>

definition get_stations :: "state \<Rightarrow> stop + (string list \<times> string list) \<times> state" where
  "get_stations st =
     (let st1 = emit [Lcd_clear, Lcd_message (''Retrieving'' @ [CHR 0x0A] @ ''station list...'')] st
      in case expect [''Select station: ''] (buf st1) of
           None \<Rightarrow> Inl TIMEOUT
         | Some (x, bef, rest) \<Rightarrow>
             Inr (parse_stations (py_splitlines bef), st1\<lparr>buf := rest\<rparr>))"

text \<open>
  The script up to the main loop, from the content of the state file, the address of
  the network interface (\<open>None\<close> when no network comes up within two minutes) and the
  output of the player.
\<close>

definition startup :: "stored \<Rightarrow> string option \<Rightarrow> string \<Rightarrow> stop + state" where
  "startup f ip out =
     (let p = load_pickle f (emit init_display globals);
          st1 = fst p;
          default_station = snd p
      in case ip of
           None \<Rightarrow> Inl SystemExit
         | Some addr \<Rightarrow>
             (let st2 = say ''Receiving station list...'' (say ''Spawning pianobar...''
                          (emit [Lcd_backlight 1,
                                 Lcd_message (''My IP address is'' @ [CHR 0x0A] @ addr)] st1))
              in case expect [''Get stations... Ok.'' @ [CHR 0x0D, CHR 0x0A]] out of
                   None \<Rightarrow> Inl TIMEOUT
                 | Some (x, bef, rest) \<Rightarrow>
                     (case get_stations (st2\<lparr>buf := rest\<rparr>) of
                        Inl e \<Rightarrow> Inl e
                      | Inr (found, st3) \<Rightarrow>
                          (let st4 = st3\<lparr>station_list := fst found, station_ids := snd found\<rparr>;
                               st5 = st4\<lparr>station_num :=
                                       (case default_station of
                                          None \<Rightarrow> 0
                                        | Some name \<Rightarrow>
                                            (case index_of name (station_list st4) of
                                               None \<Rightarrow> 0
                                             | Some i \<Rightarrow> i))\<rparr>
                           in case py_get (station_ids st5) (station_num st5) of
                                None \<Rightarrow> Inl IndexError
                              | Some ident \<Rightarrow>
                                  Inr (send (ident @ [CHR 0x0A])
                                         (say (''Selecting station '' @ ident) st5))))))"

text \<open>The whole script: start-up, then the main loop over the given inputs.\<close>

definition session :: "stored \<Rightarrow> string option \<Rightarrow> string \<Rightarrow> input list \<Rightarrow> stop + state" where
  "session f ip out inps =
     (case startup f ip out of Inl e \<Rightarrow> Inl e | Inr st \<Rightarrow> run inps st)"

text \<open>
  The positions of a marquee over the passes of the main loop: \<^verbatim>\<open>x = marquee(s, x, y, x_wrap)\<close>
  repeated from the initial position 16.
\<close>

definition marquee_offsets :: "string \<Rightarrow> int \<Rightarrow> int \<Rightarrow> nat \<Rightarrow> int" where
  "marquee_offsets s y x_wrap k = ((\<lambda>x. snd (marquee s x y x_wrap)) ^^ k) 16"

subsection \<open>Sample inputs\<close>

text \<open>
  Output of the player at start-up with three stations in its fixed-column layout, and
  passes of the main loop with no button or one button pressed.
\<close>

definition station_row :: "string \<Rightarrow> string" where
  "station_row s = [CHR 0x1B] @ ''[2K'' @ [CHR 0x09] @ s @ [CHR 0x0D, CHR 0x0A]"

definition sample_output :: string where
  "sample_output =
     ''Login... Ok.'' @ [CHR 0x0D, CHR 0x0A] @ ''Get stations... Ok.'' @ [CHR 0x0D, CHR 0x0A]
     @ station_row '' 0)     80s Rock Radio''
     @ station_row '' 1) q   QuickMix''
     @ station_row '' 2)     Jazz Radio''
     @ ''[?] Select station: ''"

definition no_buttons :: "real \<Rightarrow> input" where
  "no_buttons t =
     \<lparr>incoming = [], btn_up = False, btn_down = False, btn_left = False,
      btn_right = False, btn_sel = False, sel_held = False, now = t\<rparr>"

definition press_up :: "real \<Rightarrow> input" where
  "press_up t = (no_buttons t)\<lparr>btn_up := True\<rparr>"

definition press_down :: "real \<Rightarrow> input" where
  "press_down t = (no_buttons t)\<lparr>btn_down := True\<rparr>"

definition press_left :: "real \<Rightarrow> input" where
  "press_left t = (no_buttons t)\<lparr>btn_left := True\<rparr>"

subsection \<open>Notions used in the proofs\<close>

text \<open>The part of the state that the parser of the player's output leaves alone.\<close>

definition panel :: "state \<Rightarrow>
    (real \<times> real \<times> real \<times> bool \<times> bool \<times> bool) \<times> (real \<times> real \<times> real)
    \<times> (int \<times> int \<times> int \<times> int \<times> int) \<times> (string list \<times> string list)
    \<times> string \<times> lcd_op list" where
  "panel st =
     ((vol_cur st, vol_new st, vol_speed st, vol_set st, paused st, sta_sel st),
      (vol_time st, play_msg_time st, sta_btn_time st),
      (x_station st, station_num st, station_new st, cursorY st, list_top st),
      (station_list st, station_ids st), sent st, lcd st)"

text \<open>Invariants of the main loop.\<close>

definition volume_inv :: "state \<Rightarrow> bool" where
  "volume_inv st =
     (VOL_MIN \<le> vol_cur st \<and> vol_cur st \<le> VOL_MAX
      \<and> VOL_MIN \<le> vol_new st \<and> vol_new st \<le> VOL_MAX \<and> 1 \<le> vol_speed st)"

definition menu_inv :: "state \<Rightarrow> bool" where
  "menu_inv st =
     (station_list st \<noteq> []
      \<and> (sta_sel st \<longrightarrow>
            0 \<le> station_new st \<and> station_new st < int (length (station_list st))
            \<and> 0 \<le> cursorY st \<and> cursorY st \<le> 1
            \<and> station_new st = list_top st + cursorY st))"

definition mode_inv :: "state \<Rightarrow> bool" where
  "mode_inv st = (\<not> (vol_set st \<and> sta_sel st))"

section \<open>Properties\<close>

subsection \<open>The station list\<close>

lemma find_from_range: "0 \<le> i \<Longrightarrow> find_from i sub s = -1 \<or> i \<le> find_from i sub s"
proof (induction s arbitrary: i)
  case Nil
  then show ?case by simp
next
  case (Cons c cs)
  from Cons.IH [of "i + 1"] Cons.prems show ?case by auto
qed

lemma find_from_start: "0 \<le> i \<Longrightarrow> find_from i sub s = i \<longleftrightarrow> prefix sub s"
proof (induction s arbitrary: i)
  case Nil
  then show ?case by auto
next
  case (Cons c cs)
  from find_from_range [of "i + 1" sub cs] Cons.prems
  have "find_from (i + 1) sub cs \<noteq> i" by auto
  then show ?case by simp
qed

lemma py_find_zero: "py_find s sub = 0 \<longleftrightarrow> prefix sub s"
  by (simp add: py_find_def find_from_start)



text \<open>
  C10. The guard \<^verbatim>\<open>if b.find('Radio') or b.find('QuickMix')\<close> of \<^verbatim>\<open>get_stations\<close>
  holds for every line \<^verbatim>\<open>b\<close>: \<^verbatim>\<open>find\<close> gives 0, the only integer that counts as
  false, only for a line that starts with the word, and no line starts with both words.
  So every line that contains neither \<^verbatim>\<open>playlist...\<close> nor \<^verbatim>\<open>Autostart\<close> goes
  through the extraction of id and name at fixed columns.
\<close>

theorem station_guard_tautology:
  "station_guard b \<and> (\<not> station_skip b \<longrightarrow> station_line acc b = station_entry b acc)"
proof -
  have "\<not> (prefix ''Radio'' b \<and> prefix ''QuickMix'' b)"
    by (cases b) auto
  then have "station_guard b"
    by (auto simp: station_guard_def truthy_def py_find_zero)
  then show ?thesis
    by (simp add: station_line_def)
qed

theorem station_guard_tautology_witness:
  "station_guard ''Radio'' \<and> \<not> station_skip ''Radio''
   \<and> station_line ([''a''], [''1'']) ''Radio'' = ([''a'', ''''], [''1'', ''''])"
proof -
  have s: "\<not> station_skip ''Radio''"
    by code_simp
  have e: "station_entry ''Radio'' ([''a''], [''1'']) = ([''a'', ''''], [''1'', ''''])"
    by code_simp
  from station_guard_tautology [of "''Radio''" "([''a''], [''1''])"] s e show ?thesis
    by simp
qed








subsection \<open>The marquee\<close>

lemma marquee_next: "snd (marquee s x y w) = (if 0 < x \<or> w \<le> x then x - 1 else 0)"
  by (simp add: marquee_def)

lemma marquee_offsets_Suc:
  "marquee_offsets s y w (Suc k) = snd (marquee s (marquee_offsets s y w k) y w)"
  by (simp add: marquee_offsets_def)

lemma marquee_scroll_in: "k \<le> 16 \<Longrightarrow> marquee_offsets s y w k = 16 - int k"
proof (induction k)
  case 0
  show ?case by (simp add: marquee_offsets_def)
next
  case (Suc k)
  then show ?case by (simp add: marquee_offsets_Suc marquee_next)
qed

lemma mod_step:
  fixes a p :: int
  assumes "0 < p"
  shows "(a + 1) mod p = (if a mod p = p - 1 then 0 else a mod p + 1)"
proof (cases "a mod p = p - 1")
  case True
  have "(a + 1) mod p = (a mod p + 1) mod p"
    by (simp add: mod_add_left_eq)
  with True show ?thesis by simp
next
  case False
  have "a mod p < p" "0 \<le> a mod p"
    using assms by simp_all
  with False have "a mod p + 1 < p" "0 \<le> a mod p + 1"
    by simp_all
  then have "(a mod p + 1) mod p = a mod p + 1"
    by simp
  moreover have "(a + 1) mod p = (a mod p + 1) mod p"
    by (simp add: mod_add_left_eq)
  ultimately show ?thesis using False by simp
qed

lemma marquee_after_scroll_in:
  "marquee_offsets s y w (k + 16) = ((\<lambda>x. snd (marquee s x y w)) ^^ k) 0"
  using marquee_scroll_in [of 16 s y w]
  by (simp add: marquee_offsets_def funpow_add)

lemma marquee_cycle:
  "w \<le> 0 \<Longrightarrow> marquee_offsets s y w (k + 16) = - (int k mod (2 - w))"
  unfolding marquee_after_scroll_in
proof (induction k)
  case 0
  then show ?case by simp
next
  case (Suc k)
  let ?p = "2 - w"
  from Suc.prems have p: "0 < ?p" by simp
  have lt: "int k mod ?p < ?p" and ge: "0 \<le> int k mod ?p"
    using p by simp_all
  have step: "(int k + 1) mod ?p = (if int k mod ?p = ?p - 1 then 0 else int k mod ?p + 1)"
    by (rule mod_step [OF p])
  have "((\<lambda>x. snd (marquee s x y w)) ^^ Suc k) 0 = snd (marquee s (- (int k mod ?p)) y w)"
    using Suc.IH [OF Suc.prems] by simp
  also have "\<dots> = - ((int k + 1) mod ?p)"
    using lt ge unfolding step marquee_next by auto
  finally show ?case by (simp add: add.commute)
qed

lemma marquee_stuck:
  "0 < w \<Longrightarrow> marquee_offsets s y w (k + 16) = 0"
  unfolding marquee_after_scroll_in
  by (induction k) (simp_all add: marquee_next)

text \<open>
  C7, as stated, fails: once the position has passed the wrap threshold the marquee goes
  back to 0, not to the start position 16. With threshold -6 the position is -7 after
  23 passes and 0, not 16, after 24.
\<close>

theorem marquee_resets_to_zero:
  "marquee_offsets ''Life    Life    Life    Life    '' 0 (- 6) 0 = 16
   \<and> marquee_offsets ''Life    Life    Life    Life    '' 0 (- 6) 23 = - 7
   \<and> marquee_offsets ''Life    Life    Life    Life    '' 0 (- 6) 24 = 0
   \<and> marquee_offsets ''Life    Life    Life    Life    '' 0 (- 6) 24
       \<noteq> marquee_offsets ''Life    Life    Life    Life    '' 0 (- 6) 0"
  using marquee_scroll_in [of 0 "''Life    Life    Life    Life    ''" 0 "- 6"]
    marquee_cycle [of "- 6" "''Life    Life    Life    Life    ''" 0 7]
    marquee_cycle [of "- 6" "''Life    Life    Life    Life    ''" 0 8]
  by simp

text \<open>
  C7, amended: for every string and every wrap threshold, a pass takes the position
  down by one while it is positive or not below the threshold, and to 0 once it is below
  the threshold. From the start position 16 the positions go down by one to 0 in 16
  passes (the scroll in from the right edge, which is not repeated); from then on, with a
  threshold that is not positive, they repeat the cycle 0, -1, ..., \<open>x_wrap - 1\<close> of
  period \<open>2 - x_wrap\<close> for ever (with a positive threshold they stay at 0).
\<close>

theorem marquee_offsets_cycle:
  "snd (marquee s x y x_wrap) = (if 0 < x \<or> x_wrap \<le> x then x - 1 else 0)
   \<and> (k \<le> 16 \<longrightarrow> marquee_offsets s y x_wrap k = 16 - int k)
   \<and> marquee_offsets s y x_wrap (k + 16)
       = (if x_wrap \<le> 0 then - (int k mod (2 - x_wrap)) else 0)"
  using marquee_next [of s x y x_wrap] marquee_scroll_in [of k s y x_wrap]
    marquee_cycle [of x_wrap s y k] marquee_stuck [of x_wrap s y k]
  by simp

theorem marquee_offsets_cycle_witness:
  "(5::nat) \<le> 16 \<and> marquee_offsets ''Life    Life    Life    Life    '' 0 (- 6) 5 = 11
   \<and> marquee_offsets ''Life    Life    Life    Life    '' 0 (- 6) (5 + 16) = - 5
   \<and> snd (marquee ''Life    Life    Life    Life    '' (- 7) 0 (- 6)) = 0"
  using marquee_offsets_cycle [of "''Life    Life    Life    Life    ''" "- 7" 0 "- 6" 5]
  by simp



subsection \<open>Song announcements\<close>

text \<open>
  C6, as stated, fails: the fields of a song announcement are separated by the pattern
  \<^verbatim>\<open>' \| '\<close> (space, bar, space). In \<^verbatim>\<open>"Life|Artist X|Album Y\r\n"\<close> the bars have no
  spaces around them, so after the marker \<^verbatim>\<open>SONG: \<close> the first \<^verbatim>\<open>expect\<close> times out:
  nothing is printed and both marquee strings are empty.
\<close>

theorem song_without_spaced_bars:
  "(\<lambda>st. (song_title st, song_info st, printed st))
     (parse_output (globals\<lparr>buf := ''SONG: Life|Artist X|Album Y'' @ [CHR 0x0D, CHR 0x0A]\<rparr>))
   = ([], [], [])"
  by code_simp

text \<open>
  C6, amended: given the announcement \<^verbatim>\<open>"SONG: Life | Artist X | Album Y\r\n"\<close>, the
  parser reads the title \<^verbatim>\<open>Life\<close>, the artist \<^verbatim>\<open>Artist X\<close> and the album
  \<^verbatim>\<open>Album Y\<close> (it prints each), and both marquee strings are non-empty: the title
  line holds four copies of the title padded with four spaces, the other line
  \<^verbatim>\<open>Artist X < Album Y > \<close> twice and its first 16 characters once more.
\<close>

theorem song_with_spaced_bars:
  "(\<lambda>st. (printed st, song_title st, x_title_wrap st, song_info st, x_info_wrap st))
     (parse_output (globals\<lparr>buf := ''SONG: Life | Artist X | Album Y'' @ [CHR 0x0D, CHR 0x0A]\<rparr>))
   = ([''Song: '' @ quoted ''Life'', ''Artist: '' @ quoted ''Artist X'',
       ''Album: '' @ quoted ''Album Y''],
      ''Life    Life    Life    Life    '', - 6,
      ''Artist X < Album Y > Artist X < Album Y > Artist X < Album'', - 19)"
  by code_simp

text \<open>
  C3, as stated, fails: the song branch clears the now-playing record before it looks for
  the fields. After a complete announcement of \<^verbatim>\<open>Life\<close>, the marker of a new song
  with no field after it leaves the title marquee empty.
\<close>

theorem partial_song_clears_record:
  "song_title (parse_output (globals\<lparr>buf := ''SONG: Life | Artist X | Album Y'' @ [CHR 0x0D, CHR 0x0A]\<rparr>))
     = ''Life    Life    Life    Life    ''
   \<and> song_title (parse_output
        ((parse_output (globals\<lparr>buf := ''SONG: Life | Artist X | Album Y'' @ [CHR 0x0D, CHR 0x0A]\<rparr>))
          \<lparr>buf := ''SONG: Rain''\<rparr>)) = []"
  by code_simp

lemma parse_output_song:
  assumes "expect pattern_list (buf st) = Some (0, skipped, rest)"
    and "\<not> snd (song_branch (st\<lparr>buf := rest\<rparr>))"
  shows "parse_output st = fst (song_branch (st\<lparr>buf := rest\<rparr>))"
  using assms by (subst parse_output.simps) (simp add: marker_branch_def)

lemma song_branch_partial:
  assumes "\<not> snd (song_branch st)"
  shows "song_info (fst (song_branch st)) = [] \<and> x_title (fst (song_branch st)) = 16
    \<and> x_info (fst (song_branch st)) = 16 \<and> x_info_wrap (fst (song_branch st)) = 0
    \<and> (case expect bar (buf st) of
          None \<Rightarrow> song_title (fst (song_branch st)) = [] \<and> x_title_wrap (fst (song_branch st)) = 0
        | Some (x, title, rest) \<Rightarrow>
            song_title (fst (song_branch st))
              = py_rep (title @ ''    '') (py_int (1 + 16 / real_of_int (int (length (title @ ''    '')))))
                @ py_slice (title @ ''    '') 0 16
            \<and> x_title_wrap (fst (song_branch st)) = - int (length (title @ ''    '')) + 2)"
  using assms unfolding song_branch_def Let_def say_def
  by (auto split: option.splits)

text \<open>
  C3, amended: when the parser matches the marker of a song announcement and the three
  fields are not all matched before the timeout, the parse of that announcement is
  abandoned (the loop over the pending output ends there), and the now-playing record is
  not left as it was: \<open>song_info\<close> is empty, both positions are 16 and \<open>x_info_wrap\<close> is
  0; \<open>song_title\<close> is empty and \<open>x_title_wrap\<close> is 0 when the title was not matched,
  and they are the marquee string and the threshold of the new title when it was.
\<close>

theorem song_announcement_partial:
  assumes "expect pattern_list (buf st) = Some (0, skipped, rest)"
    and "\<not> snd (song_branch (st\<lparr>buf := rest\<rparr>))"
  shows "parse_output st = fst (song_branch (st\<lparr>buf := rest\<rparr>))
    \<and> song_info (parse_output st) = [] \<and> x_title (parse_output st) = 16
    \<and> x_info (parse_output st) = 16 \<and> x_info_wrap (parse_output st) = 0
    \<and> (case expect bar rest of
          None \<Rightarrow> song_title (parse_output st) = [] \<and> x_title_wrap (parse_output st) = 0
        | Some (x, title, rest') \<Rightarrow>
            song_title (parse_output st)
              = py_rep (title @ ''    '') (py_int (1 + 16 / real_of_int (int (length (title @ ''    '')))))
                @ py_slice (title @ ''    '') 0 16
            \<and> x_title_wrap (parse_output st) = - int (length (title @ ''    '')) + 2)"
proof -
  have eq: "parse_output st = fst (song_branch (st\<lparr>buf := rest\<rparr>))"
    by (rule parse_output_song [OF assms])
  show ?thesis
    unfolding eq using song_branch_partial [OF assms(2)] by simp
qed

theorem song_announcement_partial_witness:
  "expect pattern_list (buf (globals\<lparr>song_title := ''Old'', buf := ''SONG: Rain | Someone''\<rparr>))
     = Some (0, [], ''Rain | Someone'')
   \<and> \<not> snd (song_branch (globals\<lparr>song_title := ''Old'', buf := ''SONG: Rain | Someone'',
                              buf := ''Rain | Someone''\<rparr>))
   \<and> song_info (parse_output (globals\<lparr>song_title := ''Old'', buf := ''SONG: Rain | Someone''\<rparr>)) = []
   \<and> x_info (parse_output (globals\<lparr>song_title := ''Old'', buf := ''SONG: Rain | Someone''\<rparr>)) = 16"
proof -
  have e: "expect pattern_list (buf (globals\<lparr>song_title := ''Old'', buf := ''SONG: Rain | Someone''\<rparr>))
     = Some (0, [], ''Rain | Someone'')"
    by code_simp
  have p: "\<not> snd (song_branch (globals\<lparr>song_title := ''Old'', buf := ''SONG: Rain | Someone'',
              buf := ''Rain | Someone''\<rparr>))"
    by code_simp
  from song_announcement_partial [OF e p] e p show ?thesis
    by blast
qed


subsection \<open>What the parser of the player's output leaves alone\<close>

lemma song_branch_panel: "panel (fst (song_branch st)) = panel st"
  unfolding song_branch_def Let_def say_def panel_def
  by (auto split: option.splits)

lemma station_branch_panel: "panel (fst (station_branch st)) = panel st"
  unfolding station_branch_def say_def panel_def
  by (auto split: option.splits)

lemma time_branch_panel: "panel (fst (time_branch st)) = panel st"
  unfolding time_branch_def Let_def say_def panel_def
  by (auto split: option.splits)

lemma marker_branch_panel: "panel (fst (marker_branch x st)) = panel st"
  by (simp add: marker_branch_def song_branch_panel station_branch_panel time_branch_panel)

lemma panel_buf: "panel (st\<lparr>buf := b\<rparr>) = panel st"
  by (simp add: panel_def)

lemma parse_output_panel: "panel (parse_output st) = panel st"
proof (induction st rule: parse_output.induct)
  case (1 st)
  show ?case
  proof (cases "expect pattern_list (buf st)")
    case None
    then show ?thesis
      by (subst parse_output.simps) simp
  next
    case (Some hit)
    obtain x bef rest where hit: "hit = (x, bef, rest)"
      by (cases hit) auto
    let ?r = "marker_branch x (st\<lparr>buf := rest\<rparr>)"
    have r: "panel (fst ?r) = panel st"
      by (simp add: marker_branch_panel panel_buf)
    show ?thesis
    proof (cases "snd ?r")
      case True
      from "1.IH" [OF Some, of x "(bef, rest)" bef rest ?r] hit True
      have "panel (parse_output (fst ?r)) = panel (fst ?r)"
        by simp
      with Some hit True r show ?thesis
        by (subst parse_output.simps) simp
    next
      case False
      with Some hit r show ?thesis
        by (subst parse_output.simps) simp
    qed
  qed
qed

lemma tick_steps:
  assumes "tick inp st = Inr st'"
  obtains st1 st2 where "panel st1 = panel st" and "buttons inp st1 = Inr st2"
    and "st' = always_on inp st2"
proof -
  let ?st1 = "parse_output (st\<lparr>buf := buf st @ incoming inp\<rparr>)"
  have p: "panel ?st1 = panel st"
    by (simp add: parse_output_panel panel_buf)
  from assms obtain st2 where "buttons inp ?st1 = Inr st2" and "st' = always_on inp st2"
    by (auto simp: tick_def split: sum.splits)
  with p that show thesis by blast
qed

lemma volume_inv_panel: "panel a = panel b \<Longrightarrow> volume_inv a = volume_inv b"
  by (simp add: panel_def volume_inv_def)

lemma menu_inv_panel: "panel a = panel b \<Longrightarrow> menu_inv a = menu_inv b"
  by (simp add: panel_def menu_inv_def)

lemma mode_inv_panel: "panel a = panel b \<Longrightarrow> mode_inv a = mode_inv b"
  by (simp add: panel_def mode_inv_def)

lemma buttons_cases:
  assumes "buttons inp st = Inr st'"
  obtains (select) "btn_sel inp" "on_select inp st = Inr st'"
    | (right) "btn_right inp" "st' = on_right st"
    | (left) "btn_left inp" "on_left inp st = Inr st'"
    | (updown) "btn_up inp \<or> btn_down inp" "st' = on_updown inp st"
    | (idle) "\<not> btn_up inp" "\<not> btn_down inp" "on_idle inp st = Inr st'"
  using assms unfolding buttons_def by (auto split: if_splits)

lemma on_select_flags:
  "on_select inp st = Inr st' \<Longrightarrow> \<not> sta_sel st' \<and> vol_set st' = (vol_set st \<and> sta_sel st)"
  unfolding on_select_def send_def emit_def Let_def
  by (auto split: if_splits)

lemma on_right_flags: "\<not> sta_sel (on_right st) \<and> \<not> vol_set (on_right st)"
  unfolding on_right_def send_def emit_def Let_def
  by simp

lemma on_left_flags:
  "on_left inp st = Inr st' \<Longrightarrow>
     sta_sel st' = (\<not> sta_sel st) \<and> vol_set st' = (vol_set st \<and> sta_sel st)"
  unfolding on_left_def send_def emit_def say_def Let_def
  by (auto split: if_splits option.splits)

lemma menu_move_flags:
  "sta_sel (menu_move inp st) = sta_sel st \<and> vol_set (menu_move inp st) = vol_set st"
  unfolding menu_move_def emit_def Let_def
  by simp

lemma volume_press_flags:
  "sta_sel (volume_press inp st) = sta_sel st \<and> vol_set (volume_press inp st)"
  unfolding volume_press_def emit_def Let_def
  by simp

lemma on_updown_flags:
  "sta_sel (on_updown inp st) = sta_sel st
   \<and> vol_set (on_updown inp st) = (if sta_sel st then vol_set st else True)"
  by (simp add: on_updown_def menu_move_flags volume_press_flags)

lemma on_idle_flags:
  "on_idle inp st = Inr st' \<Longrightarrow> sta_sel st' = sta_sel st \<and> (vol_set st' \<longrightarrow> vol_set st)"
  unfolding on_idle_def emit_def Let_def
  by (auto split: if_splits option.splits)

lemma buttons_mode_inv: "buttons inp st = Inr st' \<Longrightarrow> mode_inv st \<Longrightarrow> mode_inv st'"
proof (erule buttons_cases)
  assume "on_select inp st = Inr st'"
  from on_select_flags [OF this] show "mode_inv st'" by (simp add: mode_inv_def)
next
  assume "st' = on_right st"
  with on_right_flags [of st] show "mode_inv st'" by (simp add: mode_inv_def)
next
  assume "on_left inp st = Inr st'" and "mode_inv st"
  with on_left_flags [of inp st st'] show "mode_inv st'" by (auto simp: mode_inv_def)
next
  assume "st' = on_updown inp st" and "mode_inv st"
  with on_updown_flags [of inp st] show "mode_inv st'" by (auto simp: mode_inv_def)
next
  assume "on_idle inp st = Inr st'" and "mode_inv st"
  with on_idle_flags [of inp st st'] show "mode_inv st'" by (auto simp: mode_inv_def)
qed

lemma always_on_flags:
  "vol_set (always_on inp st) = vol_set st \<and> sta_sel (always_on inp st) = sta_sel st"
  unfolding always_on_def send_volume_def emit_def send_def Let_def
  by simp

lemma always_on_mode_inv: "mode_inv (always_on inp st) = mode_inv st"
  by (simp add: mode_inv_def always_on_flags)

lemma tick_mode_inv:
  assumes "tick inp st = Inr st'" and "mode_inv st"
  shows "mode_inv st'"
proof -
  from assms(1) obtain st1 st2 where p: "panel st1 = panel st"
    and b: "buttons inp st1 = Inr st2" and a: "st' = always_on inp st2"
    by (rule tick_steps)
  from assms(2) mode_inv_panel [OF p] have "mode_inv st1" by simp
  from buttons_mode_inv [OF b this] a show ?thesis
    by (simp add: always_on_mode_inv)
qed


subsection \<open>Start-up and the passes of the main loop\<close>

lemma run_invariant:
  assumes step: "\<And>inp a b. tick inp a = Inr b \<Longrightarrow> P a \<Longrightarrow> P b"
  shows "run inps st = Inr st' \<Longrightarrow> P st \<Longrightarrow> P st'"
proof (induction inps arbitrary: st)
  case Nil
  then show ?case by simp
next
  case (Cons inp inps)
  from Cons.prems(1) obtain st1 where t: "tick inp st = Inr st1" and r: "run inps st1 = Inr st'"
    by (auto split: sum.splits)
  from step [OF t Cons.prems(2)] Cons.IH [OF r] show ?case by simp
qed

lemma foldl_station_lengths:
  "length (fst acc) = length (snd acc)
   \<Longrightarrow> length (fst (foldl station_line acc bs)) = length (snd (foldl station_line acc bs))"
  by (induction bs arbitrary: acc) (simp_all add: station_line_def station_entry_def Let_def)

lemma parse_stations_lengths:
  "length (fst (parse_stations a)) = length (snd (parse_stations a))"
  by (simp add: parse_stations_def foldl_station_lengths)

lemma get_stations_fields:
  assumes "get_stations st = Inr (found, st')"
  shows "length (fst found) = length (snd found)"
    and "panel st' = panel (emit [Lcd_clear, Lcd_message (''Retrieving'' @ [CHR 0x0A] @ ''station list...'')] st)"
  using assms unfolding get_stations_def Let_def
  by (auto simp: parse_stations_lengths panel_def emit_def split: option.splits)

lemma py_get_Some: "py_get xs i = Some x \<Longrightarrow> xs \<noteq> []"
  by (auto simp: py_get_def Let_def split: if_splits)

lemma load_pickle_fields:
  "vol_cur (fst (load_pickle f st)) = vol_cur st \<and> vol_speed (fst (load_pickle f st)) = vol_speed st
   \<and> vol_set (fst (load_pickle f st)) = vol_set st \<and> sta_sel (fst (load_pickle f st)) = sta_sel st
   \<and> sent (fst (load_pickle f st)) = sent st"
  by (cases f) (simp_all add: load_pickle_def)

lemma load_pickle_vol_new:
  "vol_new (fst (load_pickle f (emit ops st))) = vol_new (fst (load_pickle f st))"
  by (cases f) (simp_all add: load_pickle_def emit_def)

lemma startup_fields:
  assumes "startup f ip out = Inr st"
  shows "vol_cur st = VOL_MIN" and "vol_new st = vol_new (fst (load_pickle f globals))"
    and "vol_speed st = 1" and "\<not> vol_set st" and "\<not> sta_sel st"
    and "station_list st \<noteq> []"
proof -
  let ?p = "load_pickle f (emit init_display globals)"
  from assms obtain addr where ip: "ip = Some addr"
    by (cases ip) (auto simp: startup_def Let_def)
  let ?st2 = "say ''Receiving station list...'' (say ''Spawning pianobar...''
                (emit [Lcd_backlight 1, Lcd_message (''My IP address is'' @ [CHR 0x0A] @ addr)] (fst ?p)))"
  from assms ip obtain x bef rest where
    ex: "expect [''Get stations... Ok.'' @ [CHR 0x0D, CHR 0x0A]] out = Some (x, bef, rest)"
    by (cases "expect [''Get stations... Ok.'' @ [CHR 0x0D, CHR 0x0A]] out")
       (auto simp: startup_def Let_def)
  from assms ip ex obtain found st3 where gs: "get_stations (?st2\<lparr>buf := rest\<rparr>) = Inr (found, st3)"
    by (cases "get_stations (?st2\<lparr>buf := rest\<rparr>)") (auto simp: startup_def Let_def)
  let ?st4 = "st3\<lparr>station_list := fst found, station_ids := snd found\<rparr>"
  let ?st5 = "?st4\<lparr>station_num :=
                 (case snd ?p of None \<Rightarrow> 0
                  | Some name \<Rightarrow> (case index_of name (station_list ?st4) of None \<Rightarrow> 0 | Some i \<Rightarrow> i))\<rparr>"
  from assms ip ex gs obtain ident where
    pg: "py_get (station_ids ?st5) (station_num ?st5) = Some ident"
    and st: "st = send (ident @ [CHR 0x0A]) (say (''Selecting station '' @ ident) ?st5)"
    by (cases "py_get (station_ids ?st5) (station_num ?st5)") (auto simp: startup_def Let_def)
  from get_stations_fields(2) [OF gs]
  have p3: "panel st3 = panel (emit [Lcd_clear, Lcd_message (''Retrieving'' @ [CHR 0x0A] @ ''station list...'')] (?st2\<lparr>buf := rest\<rparr>))" .
  then have f3: "vol_cur st3 = vol_cur (fst ?p)" "vol_new st3 = vol_new (fst ?p)"
    "vol_speed st3 = vol_speed (fst ?p)" "vol_set st3 = vol_set (fst ?p)"
    "sta_sel st3 = sta_sel (fst ?p)"
    by (simp_all add: panel_def emit_def say_def)
  have g: "vol_cur globals = VOL_MIN" "vol_speed globals = 1" "\<not> vol_set globals" "\<not> sta_sel globals"
    by (simp_all add: globals_def)
  from st f3 g load_pickle_fields [of f "emit init_display globals"]
  show "vol_cur st = VOL_MIN" "vol_speed st = 1" "\<not> vol_set st" "\<not> sta_sel st"
    by (simp_all add: send_def say_def emit_def)
  from st f3 show "vol_new st = vol_new (fst (load_pickle f globals))"
    by (simp add: send_def say_def load_pickle_vol_new)
  from py_get_Some [OF pg] have "snd found \<noteq> []"
    by simp
  with get_stations_fields(1) [OF gs] have "fst found \<noteq> []"
    by auto
  with st show "station_list st \<noteq> []"
    by (simp add: send_def say_def)
qed

lemma session_invariant:
  assumes "session f ip out inps = Inr st"
    and init: "\<And>st0. startup f ip out = Inr st0 \<Longrightarrow> P st0"
    and step: "\<And>inp a b. tick inp a = Inr b \<Longrightarrow> P a \<Longrightarrow> P b"
  shows "P st"
proof -
  from assms(1) obtain st0 where s: "startup f ip out = Inr st0" and r: "run inps st0 = Inr st"
    by (auto simp: session_def split: sum.splits)
  from run_invariant [of P, OF step r init [OF s]] show ?thesis .
qed

subsection \<open>Modes\<close>

text \<open>
  C2. The mode flags exclude each other: in every state the main loop reaches, at the
  end of a pass, \<open>vol_set\<close> (volume adjustment) and \<open>sta_sel\<close> (station menu) are not
  both true, so exactly one of normal play, volume adjustment and station menu is active.
  Entering the menu with the left button clears \<open>vol_set\<close>, and the up/down branch sets
  \<open>vol_set\<close> only outside the menu.
\<close>

theorem modes_exclusive:
  assumes "session f ip out inps = Inr st"
  shows "\<not> (vol_set st \<and> sta_sel st)
    \<and> (if vol_set st then 1 else 0) + (if sta_sel st then 1 else 0)
        + (if \<not> vol_set st \<and> \<not> sta_sel st then 1 else 0) = (1::nat)"
proof -
  have "mode_inv st"
  proof (rule session_invariant [OF assms])
    fix st0 assume "startup f ip out = Inr st0"
    from startup_fields(4,5) [OF this] show "mode_inv st0" by (simp add: mode_inv_def)
  next
    fix inp a b assume "tick inp a = Inr b" "mode_inv a"
    then show "mode_inv b" by (rule tick_mode_inv)
  qed
  then show ?thesis by (auto simp: mode_inv_def)
qed

theorem modes_exclusive_witness:
  "map_sum id (\<lambda>st. (vol_set st, sta_sel st))
     (session NoFile (Some ''10.0.0.7'') sample_output [press_up 1, press_left 2])
     = Inr (False, True)
   \<and> \<not> (vol_set (projr (session NoFile (Some ''10.0.0.7'') sample_output [press_up 1, press_left 2]))
        \<and> sta_sel (projr (session NoFile (Some ''10.0.0.7'') sample_output [press_up 1, press_left 2])))"
proof -
  have ev: "map_sum id (\<lambda>st. (vol_set st, sta_sel st))
     (session NoFile (Some ''10.0.0.7'') sample_output [press_up 1, press_left 2])
     = Inr (False, True)"
    by code_simp
  then have "session NoFile (Some ''10.0.0.7'') sample_output [press_up 1, press_left 2]
     = Inr (projr (session NoFile (Some ''10.0.0.7'') sample_output [press_up 1, press_left 2]))"
    by (cases "session NoFile (Some ''10.0.0.7'') sample_output [press_up 1, press_left 2]") simp_all
  from modes_exclusive [OF this] ev show ?thesis
    by blast
qed


subsection \<open>The station menu\<close>

lemma on_select_menu_inv: "on_select inp st = Inr st' \<Longrightarrow> menu_inv st \<Longrightarrow> menu_inv st'"
  unfolding on_select_def send_def emit_def Let_def menu_inv_def
  by (auto split: if_splits)

lemma on_right_menu_inv: "menu_inv st \<Longrightarrow> menu_inv (on_right st)"
  unfolding on_right_def send_def emit_def Let_def menu_inv_def
  by simp

lemma on_left_menu_inv: "on_left inp st = Inr st' \<Longrightarrow> menu_inv st \<Longrightarrow> menu_inv st'"
  unfolding on_left_def send_def emit_def say_def Let_def menu_inv_def
  by (auto split: if_splits option.splits)

lemma menu_move_menu_inv: "sta_sel st \<Longrightarrow> menu_inv st \<Longrightarrow> menu_inv (menu_move inp st)"
  unfolding menu_move_def emit_def Let_def menu_inv_def
  by auto

lemma volume_press_menu_inv: "\<not> sta_sel st \<Longrightarrow> menu_inv st \<Longrightarrow> menu_inv (volume_press inp st)"
  unfolding volume_press_def emit_def Let_def menu_inv_def
  by simp

lemma on_idle_menu_inv: "on_idle inp st = Inr st' \<Longrightarrow> menu_inv st \<Longrightarrow> menu_inv st'"
  unfolding on_idle_def emit_def Let_def menu_inv_def
  by (auto split: if_splits option.splits)

lemma always_on_menu_inv: "menu_inv st \<Longrightarrow> menu_inv (always_on inp st)"
  unfolding always_on_def send_volume_def emit_def send_def Let_def menu_inv_def
  by auto

lemma buttons_menu_inv: "buttons inp st = Inr st' \<Longrightarrow> menu_inv st \<Longrightarrow> menu_inv st'"
proof (erule buttons_cases)
  assume "on_select inp st = Inr st'" "menu_inv st"
  then show "menu_inv st'" by (rule on_select_menu_inv)
next
  assume "st' = on_right st" "menu_inv st"
  then show "menu_inv st'" by (simp add: on_right_menu_inv)
next
  assume "on_left inp st = Inr st'" "menu_inv st"
  then show "menu_inv st'" by (rule on_left_menu_inv)
next
  assume "st' = on_updown inp st" "menu_inv st"
  then show "menu_inv st'"
    by (cases "sta_sel st") (simp_all add: on_updown_def menu_move_menu_inv volume_press_menu_inv)
next
  assume "on_idle inp st = Inr st'" "menu_inv st"
  then show "menu_inv st'" by (rule on_idle_menu_inv)
qed

lemma tick_menu_inv:
  assumes "tick inp st = Inr st'" and "menu_inv st"
  shows "menu_inv st'"
proof -
  from assms(1) obtain st1 st2 where p: "panel st1 = panel st"
    and b: "buttons inp st1 = Inr st2" and a: "st' = always_on inp st2"
    by (rule tick_steps)
  from assms(2) menu_inv_panel [OF p] have "menu_inv st1" by simp
  from buttons_menu_inv [OF b this] a show ?thesis
    by (simp add: always_on_menu_inv)
qed

text \<open>
  C8. In every state of the station menu that the main loop reaches, the highlighted
  index \<open>station_new\<close> lies in \<open>[0, stationCount - 1]\<close> and in the two rows on
  screen: \<open>list_top \<le> station_new \<le> list_top + 1\<close>.
\<close>

theorem menu_highlight_in_window:
  assumes "session f ip out inps = Inr st" and "sta_sel st"
  shows "0 \<le> station_new st \<and> station_new st \<le> int (length (station_list st)) - 1
    \<and> list_top st \<le> station_new st \<and> station_new st \<le> list_top st + 1"
proof -
  have "menu_inv st"
  proof (rule session_invariant [OF assms(1)])
    fix st0 assume "startup f ip out = Inr st0"
    from startup_fields(5,6) [OF this] show "menu_inv st0" by (simp add: menu_inv_def)
  next
    fix inp a b assume "tick inp a = Inr b" "menu_inv a"
    then show "menu_inv b" by (rule tick_menu_inv)
  qed
  with assms(2) show ?thesis by (auto simp: menu_inv_def)
qed

theorem menu_highlight_in_window_witness:
  "map_sum id (\<lambda>st. (sta_sel st, station_new st, list_top st, length (station_list st)))
     (session NoFile (Some ''10.0.0.7'') sample_output [press_left 1, press_down 2, press_down 3])
     = Inr (True, 2, 1, 3)
   \<and> 0 \<le> station_new (projr (session NoFile (Some ''10.0.0.7'') sample_output
               [press_left 1, press_down 2, press_down 3]))
   \<and> station_new (projr (session NoFile (Some ''10.0.0.7'') sample_output
               [press_left 1, press_down 2, press_down 3]))
       \<le> list_top (projr (session NoFile (Some ''10.0.0.7'') sample_output
               [press_left 1, press_down 2, press_down 3])) + 1"
proof -
  let ?s = "session NoFile (Some ''10.0.0.7'') sample_output [press_left 1, press_down 2, press_down 3]"
  have ev: "map_sum id (\<lambda>st. (sta_sel st, station_new st, list_top st, length (station_list st))) ?s
     = Inr (True, 2, 1, 3)"
    by code_simp
  then have r: "?s = Inr (projr ?s)" and m: "sta_sel (projr ?s)"
    by (cases ?s; simp)+
  from menu_highlight_in_window [OF r m] ev show ?thesis
    by blast
qed


subsection \<open>The volume\<close>

lemma on_select_volume:
  "on_select inp st = Inr st' \<Longrightarrow>
     vol_cur st' = vol_cur st \<and> vol_new st' = vol_new st \<and> vol_speed st' = vol_speed st"
  unfolding on_select_def send_def emit_def Let_def
  by (auto split: if_splits)

lemma on_right_volume:
  "vol_cur (on_right st) = vol_cur st \<and> vol_new (on_right st) = vol_new st
   \<and> vol_speed (on_right st) = vol_speed st"
  unfolding on_right_def send_def emit_def Let_def
  by simp

lemma on_left_volume:
  "on_left inp st = Inr st' \<Longrightarrow>
     vol_cur st' = vol_cur st \<and> vol_new st' = vol_new st \<and> vol_speed st' = vol_speed st"
  unfolding on_left_def send_def emit_def say_def Let_def
  by (auto split: if_splits option.splits)

lemma menu_move_volume:
  "vol_cur (menu_move inp st) = vol_cur st \<and> vol_new (menu_move inp st) = vol_new st
   \<and> vol_speed (menu_move inp st) = vol_speed st"
  unfolding menu_move_def emit_def Let_def
  by simp

lemma on_idle_volume:
  "on_idle inp st = Inr st' \<Longrightarrow>
     vol_cur st' = vol_cur st \<and> vol_new st' = vol_new st
     \<and> (vol_speed st' = vol_speed st \<or> vol_speed st' = 1)"
  unfolding on_idle_def emit_def Let_def
  by (auto split: if_splits option.splits)

lemma always_on_volume:
  "vol_new (always_on inp st) = vol_new st \<and> vol_speed (always_on inp st) = vol_speed st
   \<and> vol_cur (always_on inp st) = (if sta_sel st then vol_cur st else vol_new st)"
  unfolding always_on_def send_volume_def emit_def send_def Let_def
  by simp

lemma volume_press_vol_new:
  "vol_new (volume_press inp st) =
     (if btn_up inp then min (vol_cur st + (if vol_set st then vol_speed st else 1)) VOL_MAX
      else max (vol_cur st - (if vol_set st then vol_speed st else 1)) VOL_MIN)"
  unfolding volume_press_def emit_def Let_def
  by simp

lemma volume_press_others:
  "vol_cur (volume_press inp st) = vol_cur st
   \<and> vol_speed (volume_press inp st) = (if vol_set st then vol_speed st else 1) * 1.15"
  unfolding volume_press_def emit_def Let_def
  by simp

lemma volume_press_volume_inv: "volume_inv st \<Longrightarrow> volume_inv (volume_press inp st)"
  unfolding volume_inv_def volume_press_vol_new
  by (auto simp: volume_press_others VOL_MIN_def VOL_MAX_def)

lemma buttons_volume_inv: "buttons inp st = Inr st' \<Longrightarrow> volume_inv st \<Longrightarrow> volume_inv st'"
proof (erule buttons_cases)
  assume "on_select inp st = Inr st'" "volume_inv st"
  with on_select_volume [of inp st st'] show "volume_inv st'" by (simp add: volume_inv_def)
next
  assume "st' = on_right st" "volume_inv st"
  with on_right_volume [of st] show "volume_inv st'" by (simp add: volume_inv_def)
next
  assume "on_left inp st = Inr st'" "volume_inv st"
  with on_left_volume [of inp st st'] show "volume_inv st'" by (simp add: volume_inv_def)
next
  assume "st' = on_updown inp st" "volume_inv st"
  with menu_move_volume [of inp st] volume_press_volume_inv [of st inp] show "volume_inv st'"
    by (simp add: on_updown_def volume_inv_def)
next
  assume "on_idle inp st = Inr st'" "volume_inv st"
  with on_idle_volume [of inp st st'] show "volume_inv st'" by (auto simp: volume_inv_def)
qed

lemma tick_volume_inv:
  assumes "tick inp st = Inr st'" and "volume_inv st"
  shows "volume_inv st'"
proof -
  from assms(1) obtain st1 st2 where p: "panel st1 = panel st"
    and b: "buttons inp st1 = Inr st2" and a: "st' = always_on inp st2"
    by (rule tick_steps)
  from assms(2) volume_inv_panel [OF p] have "volume_inv st1" by simp
  from buttons_volume_inv [OF b this] a always_on_volume [of inp st2] show ?thesis
    by (simp add: volume_inv_def)
qed

text \<open>
  C1, as stated, fails: the volume read from the state file is taken as it is, an up
  press clips the new volume from above only and a down press from below only. With a
  stored volume of 100, a pass with no button makes 100 the current volume, and a down
  press then sets the target volume to 99, above \<open>VOL_MAX\<close>.
\<close>

theorem stored_volume_out_of_range:
  "map_sum id vol_new
     (session (VolStation 100 ''Jazz Radio'') (Some ''10.0.0.7'') sample_output
        [no_buttons 1, press_down 2])
     = Inr 99
   \<and> VOL_MAX < 99"
  by code_simp

text \<open>
  C1, amended: when the volume restored at start-up lies in \<open>[VOL_MIN, VOL_MAX]\<close> (as
  the default does when no state file is read), the target volume \<open>vol_new\<close> lies in
  \<open>[VOL_MIN, VOL_MAX]\<close> after every pass of the main loop, whatever the buttons and the
  speed; an up press sets it to \<open>min (vol_cur + vol_speed) VOL_MAX\<close> and a down press to
  \<open>max (vol_cur - vol_speed) VOL_MIN\<close>, where the speed is 1 on the press that enters
  volume adjustment.
\<close>

theorem volume_stays_in_range:
  assumes "session f ip out inps = Inr st"
    and "VOL_MIN \<le> vol_new (fst (load_pickle f globals))"
    and "vol_new (fst (load_pickle f globals)) \<le> VOL_MAX"
  shows "VOL_MIN \<le> vol_new st \<and> vol_new st \<le> VOL_MAX
    \<and> (\<forall>inp s. vol_new (volume_press inp s) =
          (if btn_up inp then min (vol_cur s + (if vol_set s then vol_speed s else 1)) VOL_MAX
           else max (vol_cur s - (if vol_set s then vol_speed s else 1)) VOL_MIN))"
proof -
  have "volume_inv st"
  proof (rule session_invariant [OF assms(1)])
    fix st0 assume "startup f ip out = Inr st0"
    from startup_fields(1,2,3) [OF this] assms(2,3) show "volume_inv st0"
      by (simp add: volume_inv_def VOL_MIN_def VOL_MAX_def)
  next
    fix inp a b assume "tick inp a = Inr b" "volume_inv a"
    then show "volume_inv b" by (rule tick_volume_inv)
  qed
  then show ?thesis
    by (simp add: volume_inv_def volume_press_vol_new)
qed

theorem volume_stays_in_range_witness:
  "map_sum id vol_new
     (session NoFile (Some ''10.0.0.7'') sample_output [press_up 1, press_up 2]) = Inr (- 357 / 20)
   \<and> VOL_MIN \<le> vol_new (fst (load_pickle NoFile globals))
   \<and> vol_new (fst (load_pickle NoFile globals)) \<le> VOL_MAX
   \<and> VOL_MIN \<le> vol_new (projr (session NoFile (Some ''10.0.0.7'') sample_output [press_up 1, press_up 2]))
   \<and> vol_new (projr (session NoFile (Some ''10.0.0.7'') sample_output [press_up 1, press_up 2])) \<le> VOL_MAX"
proof -
  let ?s = "session NoFile (Some ''10.0.0.7'') sample_output [press_up 1, press_up 2]"
  have ev: "map_sum id vol_new ?s = Inr (- 357 / 20)"
    by code_simp
  then have r: "?s = Inr (projr ?s)"
    by (cases ?s) simp_all
  have lo: "VOL_MIN \<le> vol_new (fst (load_pickle NoFile globals))"
    and hi: "vol_new (fst (load_pickle NoFile globals)) \<le> VOL_MAX"
    by (simp_all add: load_pickle_def globals_def VOL_MIN_def VOL_MAX_def VOL_DEFAULT_def)
  from volume_stays_in_range [OF r lo hi] ev lo hi show ?thesis
    by blast
qed


subsection \<open>Entering the station menu\<close>

lemma panel_fields:
  assumes "panel a = panel b"
  shows "vol_cur a = vol_cur b" "vol_new a = vol_new b" "vol_speed a = vol_speed b"
    "vol_set a = vol_set b" "sta_sel a = sta_sel b" "station_num a = station_num b"
    "station_list a = station_list b" "sent a = sent b" "lcd a = lcd b"
  using assms by (simp_all add: panel_def)

lemma on_left_enter:
  "\<not> sta_sel st \<Longrightarrow>
   on_left inp st =
     Inr (emit (fst (draw_stations (station_list st) (now inp) 0 0 0 (now inp)))
           ((emit [Lcd_create_char 7 (char_seven_bitmaps ! 0)] (send ''s'' (st\<lparr>sta_sel := True\<rparr>)))
              \<lparr>vol_set := False, cursorY := 0, station_new := 0, list_top := 0,
               x_station := 0, sta_btn_time := now inp\<rparr>))"
  by (simp add: on_left_def Let_def emit_def send_def)

lemma always_on_in_menu: "sta_sel st \<Longrightarrow> always_on inp st = st"
  by (simp add: always_on_def)

text \<open>
  C4, as stated, fails: entering the station menu puts the highlight on the first
  station of the list, not on the station that is playing. With the third station
  restored from the state file (\<open>station_num = 2\<close>), a left press gives
  \<open>station_new = 0\<close>.
\<close>

theorem left_keeps_station_num_but_not_cursor:
  "map_sum id (\<lambda>st. (sta_sel st, station_num st, station_new st))
     (session (VolStation 0 ''Jazz Radio'') (Some ''10.0.0.7'') sample_output [press_left 1])
   = Inr (True, 2, 0)"
  by code_simp

text \<open>
  C4, amended: when the left button is pressed outside the station menu (in normal play
  or in volume adjustment; select and right, which come first, not pressed), the pass
  enters the station menu with the highlight \<open>station_new\<close>, the window top
  \<open>list_top\<close> and the screen row \<open>cursorY\<close> all reset to 0, the head of the list,
  whatever station is selected (\<open>station_num\<close> is kept); volume adjustment is cleared,
  and the station list is requested from the player (\<^verbatim>\<open>s\<close> is sent) and drawn.
\<close>

theorem left_enters_menu_at_top:
  assumes "btn_left inp" and "\<not> btn_sel inp" and "\<not> btn_right inp" and "\<not> sta_sel st"
  shows "\<exists>st'. tick inp st = Inr st' \<and> sta_sel st' \<and> \<not> vol_set st'
    \<and> station_new st' = 0 \<and> list_top st' = 0 \<and> cursorY st' = 0
    \<and> station_num st' = station_num st
    \<and> sent st' = sent st @ ''s''
    \<and> lcd st' = lcd st @ Lcd_create_char 7 (char_seven_bitmaps ! 0)
                   # fst (draw_stations (station_list st) (now inp) 0 0 0 (now inp))"
proof -
  let ?st1 = "parse_output (st\<lparr>buf := buf st @ incoming inp\<rparr>)"
  have p: "panel ?st1 = panel st"
    by (simp add: parse_output_panel panel_buf)
  note f = panel_fields [OF p]
  from assms(4) f(5) have n: "\<not> sta_sel ?st1" by simp
  let ?st2 = "emit (fst (draw_stations (station_list ?st1) (now inp) 0 0 0 (now inp)))
           ((emit [Lcd_create_char 7 (char_seven_bitmaps ! 0)] (send ''s'' (?st1\<lparr>sta_sel := True\<rparr>)))
              \<lparr>vol_set := False, cursorY := 0, station_new := 0, list_top := 0,
               x_station := 0, sta_btn_time := now inp\<rparr>)"
  have b: "buttons inp ?st1 = Inr ?st2"
    using assms(1-3) on_left_enter [OF n, of inp] by (simp add: buttons_def)
  have s: "sta_sel ?st2"
    by (simp add: emit_def send_def)
  have t: "tick inp st = Inr ?st2"
    by (simp add: tick_def b always_on_in_menu [OF s])
  have "sta_sel ?st2 \<and> \<not> vol_set ?st2 \<and> station_new ?st2 = 0 \<and> list_top ?st2 = 0
    \<and> cursorY ?st2 = 0 \<and> station_num ?st2 = station_num st \<and> sent ?st2 = sent st @ ''s''
    \<and> lcd ?st2 = lcd st @ Lcd_create_char 7 (char_seven_bitmaps ! 0)
                   # fst (draw_stations (station_list st) (now inp) 0 0 0 (now inp))"
    by (simp add: emit_def send_def f)
  with t show ?thesis by blast
qed

theorem left_enters_menu_at_top_witness:
  "btn_left (press_left 1) \<and> \<not> btn_sel (press_left 1) \<and> \<not> btn_right (press_left 1)
   \<and> \<not> sta_sel (globals\<lparr>vol_set := True, station_num := 2\<rparr>)
   \<and> (\<exists>st'. tick (press_left 1) (globals\<lparr>vol_set := True, station_num := 2\<rparr>) = Inr st'
         \<and> sta_sel st' \<and> \<not> vol_set st' \<and> station_new st' = 0 \<and> station_num st' = 2
         \<and> sent st' = ''s'')"
proof -
  have h: "btn_left (press_left 1)" "\<not> btn_sel (press_left 1)" "\<not> btn_right (press_left 1)"
    "\<not> sta_sel (globals\<lparr>vol_set := True, station_num := 2\<rparr>)"
    by (simp_all add: press_left_def no_buttons_def globals_def)
  have g: "station_num (globals\<lparr>vol_set := True, station_num := 2\<rparr>) = 2"
    "sent (globals\<lparr>vol_set := True, station_num := 2\<rparr>) = []"
    by (simp_all add: globals_def)
  from left_enters_menu_at_top [OF h] obtain st' where
    "tick (press_left 1) (globals\<lparr>vol_set := True, station_num := 2\<rparr>) = Inr st'"
    "sta_sel st'" "\<not> vol_set st'" "station_new st' = 0"
    "station_num st' = station_num (globals\<lparr>vol_set := True, station_num := 2\<rparr>)"
    "sent st' = sent (globals\<lparr>vol_set := True, station_num := 2\<rparr>) @ ''s''"
    by blast
  with h g show ?thesis by simp
qed

subsection \<open>The stored volume\<close>

lemma buttons_vol_new:
  assumes "buttons inp st = Inr st'"
    and "\<not> ((btn_up inp \<or> btn_down inp) \<and> \<not> btn_sel inp \<and> \<not> btn_right inp
            \<and> \<not> btn_left inp \<and> \<not> sta_sel st)"
  shows "vol_new st' = vol_new st"
proof (cases "btn_sel inp")
  case True
  with assms(1) on_select_volume [of inp st st'] show ?thesis by (simp add: buttons_def)
next
  case sel: False
  show ?thesis
  proof (cases "btn_right inp")
    case True
    with sel assms(1) on_right_volume [of st] show ?thesis by (auto simp: buttons_def)
  next
    case right: False
    show ?thesis
    proof (cases "btn_left inp")
      case True
      with sel right assms(1) on_left_volume [of inp st st'] show ?thesis
        by (simp add: buttons_def)
    next
      case left: False
      show ?thesis
      proof (cases "btn_up inp \<or> btn_down inp")
        case True
        with sel right left assms(2) have "sta_sel st" by simp
        with True sel right left assms(1) menu_move_volume [of inp st] show ?thesis
          by (auto simp: buttons_def on_updown_def)
      next
        case False
        with sel right left assms(1) on_idle_volume [of inp st st'] show ?thesis
          by (simp add: buttons_def)
      qed
    qed
  qed
qed

lemma tick_vol_new:
  assumes "tick inp st = Inr st'"
    and "\<not> ((btn_up inp \<or> btn_down inp) \<and> \<not> btn_sel inp \<and> \<not> btn_right inp
            \<and> \<not> btn_left inp \<and> \<not> sta_sel st)"
  shows "vol_new st' = vol_new st"
proof -
  from assms(1) obtain st1 st2 where p: "panel st1 = panel st"
    and b: "buttons inp st1 = Inr st2" and a: "st' = always_on inp st2"
    by (rule tick_steps)
  note f = panel_fields [OF p]
  from assms(2) f(5) have "\<not> ((btn_up inp \<or> btn_down inp) \<and> \<not> btn_sel inp \<and> \<not> btn_right inp
            \<and> \<not> btn_left inp \<and> \<not> sta_sel st1)"
    by simp
  from buttons_vol_new [OF b this] a f(2) always_on_volume [of inp st2] show ?thesis
    by simp
qed

lemma py_rep_single: "py_rep [c] k = replicate (nat k) c"
  by (induction "nat k" arbitrary: k) (simp_all add: py_rep_def)

lemma always_on_sent:
  "\<not> sta_sel st \<Longrightarrow>
   sent (always_on inp st) =
     sent st @ (if 0 < vol_i (vol_new st) - vol_i (vol_cur st)
                then replicate (nat (vol_i (vol_new st) - vol_i (vol_cur st))) (CHR '')'')
                else replicate (nat (vol_i (vol_cur st) - vol_i (vol_new st))) (CHR ''(''))"
  unfolding always_on_def send_volume_def emit_def send_def Let_def
  by (simp add: py_rep_single)

lemma vol_i_VOL_MIN: "vol_i VOL_MIN = 0"
  by code_simp

text \<open>
  The rounding of the two operations shows in the level: for the double next below one
  half, \<open>v + 20\<close> rounds to 20.5 and the level is 21, where exact arithmetic gives 20.
\<close>

lemma vol_i_rounds:
  "vol_i (1 / 2 - 1 / 2 ^ 54) = 21 \<and> py_int (((1 / 2 - 1 / 2 ^ 54) - VOL_MIN) + 0.5) = 20"
  by code_simp

lemma to_double_samples:
  "to_double (1 / 10) = 3602879701896397 / 36028797018963968
   \<and> to_double (2 ^ 53 + 1) = 2 ^ 53 \<and> to_double (2 ^ 53 + 3) = 2 ^ 53 + 4
   \<and> to_double (- 79.5) = - 79.5"
  by code_simp

lemma on_idle_normal: "\<not> sta_sel st \<Longrightarrow> \<not> vol_set st \<Longrightarrow> on_idle inp st = Inr st"
  by (simp add: on_idle_def)

lemma on_select_tap:
  assumes "\<not> sel_held inp" and "\<not> sta_sel st"
  shows "\<exists>st'. on_select inp st = Inr st' \<and> \<not> sta_sel st' \<and> vol_cur st' = vol_cur st
    \<and> vol_new st' = vol_new st \<and> sent st' = sent st @ ''p''"
  using assms unfolding on_select_def send_def emit_def Let_def
  by simp

lemma on_right_normal:
  "\<not> sta_sel st \<Longrightarrow>
     \<not> sta_sel (on_right st) \<and> vol_cur (on_right st) = vol_cur st
     \<and> vol_new (on_right st) = vol_new st \<and> sent (on_right st) = sent st @ ''n''"
  unfolding on_right_def send_def emit_def Let_def
  by simp

lemma load_pickle_stored:
  "f = VolStation v name \<or> f = VolOnly v \<Longrightarrow> vol_new (fst (load_pickle f st)) = v"
  by (auto simp: load_pickle_def)

lemma first_pass_buttons:
  assumes "\<not> sta_sel st" and "\<not> vol_set st"
    and "\<not> (btn_sel inp \<and> sel_held inp)"
    and "btn_sel inp \<or> btn_right inp \<or> (\<not> btn_left inp \<and> \<not> btn_up inp \<and> \<not> btn_down inp)"
  shows "\<exists>st'. buttons inp st = Inr st' \<and> \<not> sta_sel st' \<and> vol_cur st' = vol_cur st
    \<and> vol_new st' = vol_new st
    \<and> sent st' = sent st @ (if btn_sel inp then ''p'' else if btn_right inp then ''n'' else [])"
proof (cases "btn_sel inp")
  case True
  with assms(3) have "\<not> sel_held inp" by simp
  from on_select_tap [OF this assms(1)] True show ?thesis
    by (simp add: buttons_def)
next
  case sel: False
  show ?thesis
  proof (cases "btn_right inp")
    case True
    with sel on_right_normal [OF assms(1)] show ?thesis
      by (simp add: buttons_def)
  next
    case False
    with sel assms(4) have "\<not> btn_left inp" "\<not> btn_up inp" "\<not> btn_down inp"
      by simp_all
    with sel False on_idle_normal [OF assms(1,2), of inp] assms(1) show ?thesis
      by (simp add: buttons_def)
  qed
qed

text \<open>
  C9, as stated, fails: the buttons are handled before the volume is sent. With a stored
  volume of 100, an up press on the first pass computes the target volume from the
  current volume \<open>VOL_MIN\<close>: it becomes -19 and a single command is sent, not 120. A
  left press on the first pass enters the station menu and no volume command is sent.
\<close>

theorem first_pass_with_button:
  "map_sum id (\<lambda>st. (vol_new st, vol_cur st, sent st))
     (session (VolStation 100 ''Jazz Radio'') (Some ''10.0.0.7'') sample_output [press_up 1])
     = Inr (- 19, - 19, ''2'' @ [CHR 0x0A] @ '')'')
   \<and> map_sum id (\<lambda>st. (vol_new st, vol_cur st, sent st))
     (session (VolStation 100 ''Jazz Radio'') (Some ''10.0.0.7'') sample_output [press_left 1])
     = Inr (100, - 20, ''2'' @ [CHR 0x0A] @ ''s'')"
  by code_simp

text \<open>
  C9, amended. The volume restored from the state file is taken without clamping: for
  every stored value \<open>v\<close>, in or out of \<open>[VOL_MIN, VOL_MAX]\<close>, the target volume after
  start-up is \<open>v\<close>. When the first pass of the main loop handles no up or down press,
  does not enter the station menu by a left press and does not shut down on a held select
  (that is: no button, a tap of select, or right), it makes \<open>v\<close> the current volume and
  sends the player, after the \<^verbatim>\<open>p\<close> or \<^verbatim>\<open>n\<close> of the button, one unit volume command
  for each unit of the whole level \<^verbatim>\<open>int((v - VOL_MIN) + 0.5)\<close>: that many \<^verbatim>\<open>)\<close> when
  it is positive, \<^verbatim>\<open>(\<close> when it is negative. No pass changes the target volume but one
  with up or down pressed outside the station menu, and only there is the volume
  clipped: from above on an up press, from below on a down press.
\<close>

theorem stored_volume_unclamped:
  assumes "f = VolStation v name \<or> f = VolOnly v"
    and "startup f ip out = Inr st0"
    and "\<not> (btn_sel inp \<and> sel_held inp)"
    and "btn_sel inp \<or> btn_right inp \<or> (\<not> btn_left inp \<and> \<not> btn_up inp \<and> \<not> btn_down inp)"
  shows "vol_new st0 = v
    \<and> (\<exists>st1. tick inp st0 = Inr st1 \<and> vol_new st1 = v \<and> vol_cur st1 = v
         \<and> sent st1 = sent st0
              @ (if btn_sel inp then ''p'' else if btn_right inp then ''n'' else [])
              @ (if 0 < vol_i v then replicate (nat (vol_i v)) (CHR '')'')
                 else replicate (nat (- vol_i v)) (CHR ''('')))
    \<and> (\<forall>i s s'. tick i s = Inr s'
           \<and> \<not> ((btn_up i \<or> btn_down i) \<and> \<not> btn_sel i \<and> \<not> btn_right i
                 \<and> \<not> btn_left i \<and> \<not> sta_sel s)
         \<longrightarrow> vol_new s' = vol_new s)
    \<and> (\<forall>i s. vol_new (volume_press i s) =
          (if btn_up i then min (vol_cur s + (if vol_set s then vol_speed s else 1)) VOL_MAX
           else max (vol_cur s - (if vol_set s then vol_speed s else 1)) VOL_MIN))"
proof -
  note s = startup_fields [OF assms(2)]
  from s(2) load_pickle_stored [OF assms(1)] have v: "vol_new st0 = v"
    by simp
  let ?st1 = "parse_output (st0\<lparr>buf := buf st0 @ incoming inp\<rparr>)"
  have p: "panel ?st1 = panel st0"
    by (simp add: parse_output_panel panel_buf)
  note f = panel_fields [OF p]
  from s(4,5) f(4,5) have n: "\<not> sta_sel ?st1" "\<not> vol_set ?st1"
    by simp_all
  from first_pass_buttons [OF n assms(3,4)] obtain st2 where b: "buttons inp ?st1 = Inr st2"
    and m: "\<not> sta_sel st2" and c: "vol_cur st2 = vol_cur ?st1" "vol_new st2 = vol_new ?st1"
    and t2: "sent st2 = sent ?st1 @ (if btn_sel inp then ''p'' else if btn_right inp then ''n'' else [])"
    by blast
  have t: "tick inp st0 = Inr (always_on inp st2)"
    by (simp add: tick_def b)
  have "vol_new (always_on inp st2) = v" "vol_cur (always_on inp st2) = v"
    using always_on_volume [of inp st2] m c f(2) v by simp_all
  moreover have "sent (always_on inp st2)
      = sent st0 @ (if btn_sel inp then ''p'' else if btn_right inp then ''n'' else [])
          @ (if 0 < vol_i v then replicate (nat (vol_i v)) (CHR '')'')
             else replicate (nat (- vol_i v)) (CHR ''(''))"
    by (simp add: always_on_sent [OF m] c t2 f(1,2,8) s(1) v vol_i_VOL_MIN)
  ultimately have first: "\<exists>st1. tick inp st0 = Inr st1 \<and> vol_new st1 = v \<and> vol_cur st1 = v
         \<and> sent st1 = sent st0
              @ (if btn_sel inp then ''p'' else if btn_right inp then ''n'' else [])
              @ (if 0 < vol_i v then replicate (nat (vol_i v)) (CHR '')'')
                 else replicate (nat (- vol_i v)) (CHR ''(''))"
    using t by blast
  have only: "\<forall>i s s'. tick i s = Inr s'
           \<and> \<not> ((btn_up i \<or> btn_down i) \<and> \<not> btn_sel i \<and> \<not> btn_right i
                 \<and> \<not> btn_left i \<and> \<not> sta_sel s)
         \<longrightarrow> vol_new s' = vol_new s"
    using tick_vol_new by blast
  from v first only volume_press_vol_new show ?thesis
    by blast
qed

theorem stored_volume_unclamped_witness:
  "\<not> isl (startup (VolStation 100 ''Jazz Radio'') (Some ''10.0.0.7'') sample_output)
   \<and> \<not> (btn_sel (no_buttons 1) \<and> sel_held (no_buttons 1))
   \<and> (btn_sel (no_buttons 1) \<or> btn_right (no_buttons 1)
       \<or> (\<not> btn_left (no_buttons 1) \<and> \<not> btn_up (no_buttons 1) \<and> \<not> btn_down (no_buttons 1)))
   \<and> vol_new (projr (startup (VolStation 100 ''Jazz Radio'') (Some ''10.0.0.7'') sample_output)) = 100
   \<and> (\<exists>st1. tick (no_buttons 1)
               (projr (startup (VolStation 100 ''Jazz Radio'') (Some ''10.0.0.7'') sample_output))
             = Inr st1
         \<and> vol_new st1 = 100 \<and> vol_cur st1 = 100
         \<and> sent st1 = ''2'' @ [CHR 0x0A] @ replicate 120 (CHR '')''))"
proof -
  let ?s = "startup (VolStation 100 ''Jazz Radio'') (Some ''10.0.0.7'') sample_output"
  have i: "map_sum id sent ?s = Inr (''2'' @ [CHR 0x0A])"
    by code_simp
  then have r: "?s = Inr (projr ?s)" and n: "\<not> isl ?s" and t: "sent (projr ?s) = ''2'' @ [CHR 0x0A]"
    by (cases ?s; simp)+
  have h: "\<not> (btn_sel (no_buttons 1) \<and> sel_held (no_buttons 1))"
    "btn_sel (no_buttons 1) \<or> btn_right (no_buttons 1)
       \<or> (\<not> btn_left (no_buttons 1) \<and> \<not> btn_up (no_buttons 1) \<and> \<not> btn_down (no_buttons 1))"
    "\<not> btn_sel (no_buttons 1)" "\<not> btn_right (no_buttons 1)"
    by (simp_all add: no_buttons_def)
  have d: "vol_i 100 = 120"
    by code_simp
  have "VolStation 100 ''Jazz Radio'' = VolStation 100 ''Jazz Radio''
      \<or> VolStation 100 ''Jazz Radio'' = VolOnly 100"
    by simp
  from stored_volume_unclamped [OF this r h(1,2)] n h t show ?thesis
    unfolding d by simp
qed


end
